theory Spec2Isabelle
  imports Main "HOL-Library.Word" "HOL-Library.Multiset"
begin

section \<open>Data model (models/models.go, migrations/001\_init.sql)\<close>

text \<open>
  A \<open>uuid.UUID\<close> is sixteen bytes; \<open>time.Time\<close> is kept as a timestamp, since the
  program only stores it and orders rows by it.
\<close>

type_synonym uuid = "128 word"
type_synonym time = nat

record Conversation =
  conv_ID :: uuid
  conv_CreatedAt :: time

record Message =
  ID :: uuid
  ConversationID :: uuid
  Role :: string
  Content :: string
  CreatedAt :: time

record SendMessageRequest =
  req_Content :: string

record ChatResponse =
  resp_UserMessage :: Message
  resp_AssistantMessage :: Message

text \<open>
  A Go slice is either \<open>nil\<close> or a (possibly empty) sequence; the two differ when they
  are encoded as JSON (\<open>null\<close> against \<open>[]\<close>).
\<close>

datatype 'a slice = NilSlice | Slice "'a list"

fun elems :: "'a slice \<Rightarrow> 'a list" where
  "elems NilSlice = []"
| "elems (Slice xs) = xs"

fun append_slice :: "'a slice \<Rightarrow> 'a \<Rightarrow> 'a slice" where
  "append_slice NilSlice x = Slice [x]"
| "append_slice (Slice xs) x = Slice (xs @ [x])"

text \<open>A Go \<open>error\<close> value; \<open>Error\<close> is its message (\<open>err.Error()\<close>).\<close>

datatype error = GoError string | UnknownWorkflow string

fun Error :: "error \<Rightarrow> string" where
  "Error (GoError s) = s"
| "Error (UnknownWorkflow n) = ''unknown workflow: '' @ n"

section \<open>The environment and the application's database\<close>

record VLLMMessage =
  vm_Role :: string
  vm_Content :: string

text \<open>The request body; its constant \<open>temperature\<close> of 0.7 is left out.\<close>

record VLLMRequest =
  Model :: string
  Messages :: "VLLMMessage list"
  MaxTokens :: nat

text \<open>
  What \<open>http.Client.Do\<close>, \<open>io.ReadAll\<close> and \<open>json.Unmarshal\<close> give for one request:
  a transport error, a read error, or a status code with the body and what parsing
  the body gives: an error, or the contents of its \<open>choices\<close>.
\<close>

datatype http_result =
    SendError error
  | ReadError error
  | Response nat string "error + string list"

text \<open>
  Everything outside the program is an oracle indexed by \<open>tick\<close>, the number of
  interactions with the outside so far: the random source behind \<open>uuid.New\<close>, the
  clock behind \<open>time.Now\<close>, driver failures of the database connection, and the
  model server.
\<close>

record env =
  uuid_source :: "nat \<Rightarrow> uuid"
  clock :: "nat \<Rightarrow> time"
  db_error :: "nat \<Rightarrow> error option"
  http_Do :: "nat \<Rightarrow> VLLMRequest \<Rightarrow> http_result"
  uuid_Parse :: "string \<Rightarrow> uuid option"

text \<open>The calls that reach the database and the model server, in order (a ghost log).\<close>

datatype call =
    SelectMessages uuid
  | SelectConversations
  | ExistsConversation uuid
  | InsertMessage Message
  | InsertConversation Conversation
  | DeleteMessages uuid
  | DeleteConversationRow uuid
  | ChatCompletion VLLMRequest

record world =
  conversations :: "Conversation list"
  messages :: "Message list"
  tick :: nat
  calls :: "call list"

definition advance :: "call \<Rightarrow> world \<Rightarrow> world" where
  "advance c w = w\<lparr>tick := Suc (tick w), calls := calls w @ [c]\<rparr>"

definition uuid_New :: "env \<Rightarrow> world \<Rightarrow> uuid \<times> world" where
  "uuid_New e w = (uuid_source e (tick w), w\<lparr>tick := Suc (tick w)\<rparr>)"

definition time_Now :: "env \<Rightarrow> world \<Rightarrow> time \<times> world" where
  "time_Now e w = (clock e (tick w), w\<lparr>tick := Suc (tick w)\<rparr>)"

subsection \<open>The SQL statements of the program\<close>

text \<open>
  \<open>SELECT ... FROM messages WHERE conversation_id = $1 ORDER BY created_at ASC\<close>.
  Rows with equal \<open>created_at\<close> are returned in table order.
\<close>

definition query_messages :: "env \<Rightarrow> uuid \<Rightarrow> world \<Rightarrow> (error + Message list) \<times> world" where
  "query_messages e c w =
     (case db_error e (tick w) of
        Some err \<Rightarrow> (Inl err, advance (SelectMessages c) w)
      | None \<Rightarrow>
          (Inr (sort_key CreatedAt (filter (\<lambda>m. ConversationID m = c) (messages w))),
           advance (SelectMessages c) w))"

text \<open>\<open>SELECT id, created_at FROM conversations ORDER BY created_at DESC\<close>.\<close>

definition query_conversations :: "env \<Rightarrow> world \<Rightarrow> (error + Conversation list) \<times> world" where
  "query_conversations e w =
     (case db_error e (tick w) of
        Some err \<Rightarrow> (Inl err, advance SelectConversations w)
      | None \<Rightarrow>
          (Inr (rev (sort_key conv_CreatedAt (conversations w))),
           advance SelectConversations w))"

text \<open>\<open>SELECT EXISTS(SELECT 1 FROM conversations WHERE id = $1)\<close>.\<close>

definition query_exists :: "env \<Rightarrow> uuid \<Rightarrow> world \<Rightarrow> (error + bool) \<times> world" where
  "query_exists e c w =
     (case db_error e (tick w) of
        Some err \<Rightarrow> (Inl err, advance (ExistsConversation c) w)
      | None \<Rightarrow>
          (Inr (c \<in> set (map conv_ID (conversations w))), advance (ExistsConversation c) w))"

text \<open>
  \<open>INSERT INTO messages ...\<close>: the primary key on \<open>id\<close> and the foreign key on
  \<open>conversation_id\<close> of the schema are enforced.
\<close>

definition insert_message :: "env \<Rightarrow> Message \<Rightarrow> world \<Rightarrow> error option \<times> world" where
  "insert_message e m w =
     (case db_error e (tick w) of
        Some err \<Rightarrow> (Some err, advance (InsertMessage m) w)
      | None \<Rightarrow>
          if ID m \<in> set (map ID (messages w))
          then (Some (GoError ''pq: duplicate key value violates unique constraint''),
                advance (InsertMessage m) w)
          else if ConversationID m \<notin> set (map conv_ID (conversations w))
          then (Some (GoError ''pq: insert violates foreign key constraint''),
                advance (InsertMessage m) w)
          else (None, (advance (InsertMessage m) w)\<lparr>messages := messages w @ [m]\<rparr>))"

text \<open>\<open>INSERT INTO conversations (id, created_at) VALUES ($1, $2)\<close>.\<close>

definition insert_conversation :: "env \<Rightarrow> Conversation \<Rightarrow> world \<Rightarrow> error option \<times> world" where
  "insert_conversation e c w =
     (case db_error e (tick w) of
        Some err \<Rightarrow> (Some err, advance (InsertConversation c) w)
      | None \<Rightarrow>
          if conv_ID c \<in> set (map conv_ID (conversations w))
          then (Some (GoError ''pq: duplicate key value violates unique constraint''),
                advance (InsertConversation c) w)
          else (None, (advance (InsertConversation c) w)
                        \<lparr>conversations := conversations w @ [c]\<rparr>))"

text \<open>\<open>DELETE FROM messages WHERE conversation_id = $1\<close>; no matching row is no error.\<close>

definition delete_messages :: "env \<Rightarrow> uuid \<Rightarrow> world \<Rightarrow> error option \<times> world" where
  "delete_messages e c w =
     (case db_error e (tick w) of
        Some err \<Rightarrow> (Some err, advance (DeleteMessages c) w)
      | None \<Rightarrow>
          (None, (advance (DeleteMessages c) w)
                   \<lparr>messages := filter (\<lambda>m. ConversationID m \<noteq> c) (messages w)\<rparr>))"

text \<open>
  \<open>DELETE FROM conversations WHERE id = $1\<close>; a row still referenced by a message
  cannot be deleted, and no matching row is no error.
\<close>

definition delete_conversation :: "env \<Rightarrow> uuid \<Rightarrow> world \<Rightarrow> error option \<times> world" where
  "delete_conversation e c w =
     (case db_error e (tick w) of
        Some err \<Rightarrow> (Some err, advance (DeleteConversationRow c) w)
      | None \<Rightarrow>
          if c \<in> set (map conv_ID (conversations w)) \<and>
             c \<in> set (map ConversationID (messages w))
          then (Some (GoError ''pq: delete violates foreign key constraint''),
                advance (DeleteConversationRow c) w)
          else (None, (advance (DeleteConversationRow c) w)
                        \<lparr>conversations := filter (\<lambda>r. conv_ID r \<noteq> c) (conversations w)\<rparr>))"

section \<open>services/vllm.go\<close>

text \<open>
  \<open>Chat\<close> builds the request from the history and the new user message and sends it.
  Encoding this request and creating the HTTP request do not fail, so their error
  returns have no branch here. \<open>decimal\<close> is the \<open>%d\<close> of \<open>fmt\<close>.
\<close>

function decimal :: "nat \<Rightarrow> string" where
  "decimal n = (if n < 10 then [char_of (48 + n)] else decimal (n div 10) @ [char_of (48 + n mod 10)])"
  by pat_completeness auto
termination
  by (relation "measure id") auto

definition Chat :: "env \<Rightarrow> Message slice \<Rightarrow> string \<Rightarrow> world \<Rightarrow> (error + string) \<times> world" where
  "Chat e msgs userMessage w =
     (let vllmMessages =
            map (\<lambda>msg. \<lparr>vm_Role = Role msg, vm_Content = Content msg\<rparr>) (elems msgs)
            @ [\<lparr>vm_Role = ''user'', vm_Content = userMessage\<rparr>];
          reqBody = \<lparr>Model = ''meta-llama/Meta-Llama-3.1-8B-Instruct'',
                     Messages = vllmMessages, MaxTokens = 4096\<rparr>;
          w' = advance (ChatCompletion reqBody) w
      in case http_Do e (tick w) reqBody of
           SendError err \<Rightarrow>
             (Inl (GoError (''failed to send request to vLLM: '' @ Error err)), w')
         | ReadError err \<Rightarrow>
             (Inl (GoError (''failed to read response: '' @ Error err)), w')
         | Response status body parsed \<Rightarrow>
             if status \<noteq> 200
             then (Inl (GoError (''vLLM API error (status '' @ decimal status @ ''): '' @ body)), w')
             else (case parsed of
                     Inl err \<Rightarrow>
                       (Inl (GoError (''failed to parse response: '' @ Error err)), w')
                   | Inr choices \<Rightarrow>
                       (case choices of
                          [] \<Rightarrow> (Inl (GoError ''no response from vLLM''), w')
                        | c # _ \<Rightarrow> (Inr c, w'))))"

section \<open>workflows/chat.go: the step bodies\<close>

text \<open>
  \<open>getMessages\<close> starts from a \<open>nil\<close> slice and appends the rows (scanning a row of the
  selected columns into a \<open>Message\<close> does not fail); \<open>saveMessage\<close> draws the id and
  reads the clock, then inserts.
\<close>

definition getMessages :: "env \<Rightarrow> uuid \<Rightarrow> world \<Rightarrow> (error + Message slice) \<times> world" where
  "getMessages e conversationID w =
     (case query_messages e conversationID w of
        (Inl err, w') \<Rightarrow> (Inl err, w')
      | (Inr rows, w') \<Rightarrow> (Inr (fold (\<lambda>msg acc. append_slice acc msg) rows NilSlice), w'))"

definition saveMessage :: "env \<Rightarrow> uuid \<Rightarrow> string \<Rightarrow> string \<Rightarrow> world \<Rightarrow> (error + Message) \<times> world" where
  "saveMessage e conversationID role content w =
     (let (uid, w1) = uuid_New e w;
          (now, w2) = time_Now e w1;
          m = \<lparr>ID = uid, ConversationID = conversationID, Role = role,
               Content = content, CreatedAt = now\<rparr>
      in case insert_message e m w2 of
           (Some err, w3) \<Rightarrow> (Inl err, w3)
         | (None, w3) \<Rightarrow> (Inr m, w3))"

record SendMessageInput =
  in_ConversationID :: uuid
  in_Content :: string

record SendMessageOutput =
  UserMessage :: Message
  AssistantMessage :: Message

text \<open>
  The closures handed to \<open>dbos.RunAsStep\<close>, one constructor per closure of the source
  with the variables it captures, and what running each of them does.
\<close>

datatype step_body =
    GetMessagesStep uuid
  | SaveMessageStep uuid string string
  | ChatStep "Message slice" string
  | CreateConversationStep
  | DeleteMessagesStep uuid
  | DeleteConversationStep uuid

text \<open>Serialised inputs and outputs of workflows and steps.\<close>

datatype val =
    VMessages "Message slice"
  | VMessage Message
  | VString string
  | VBool bool
  | VUUID uuid
  | VConversation Conversation
  | VSendMessageInput SendMessageInput
  | VSendMessageOutput SendMessageOutput

definition run_body :: "env \<Rightarrow> step_body \<Rightarrow> world \<Rightarrow> (error + val) \<times> world" where
  "run_body e b w =
     (case b of
        GetMessagesStep conversationID \<Rightarrow>
          (case getMessages e conversationID w of
             (Inl err, w') \<Rightarrow> (Inl err, w')
           | (Inr ms, w') \<Rightarrow> (Inr (VMessages ms), w'))
      | SaveMessageStep conversationID role content \<Rightarrow>
          (case saveMessage e conversationID role content w of
             (Inl err, w') \<Rightarrow> (Inl err, w')
           | (Inr m, w') \<Rightarrow> (Inr (VMessage m), w'))
      | ChatStep msgs userMessage \<Rightarrow>
          (case Chat e msgs userMessage w of
             (Inl err, w') \<Rightarrow> (Inl err, w')
           | (Inr reply, w') \<Rightarrow> (Inr (VString reply), w'))
      | CreateConversationStep \<Rightarrow>
          (let (uid, w1) = uuid_New e w;
               (now, w2) = time_Now e w1;
               c = \<lparr>conv_ID = uid, conv_CreatedAt = now\<rparr>
           in case insert_conversation e c w2 of
                (Some err, w3) \<Rightarrow> (Inl err, w3)
              | (None, w3) \<Rightarrow> (Inr (VConversation c), w3))
      | DeleteMessagesStep conversationID \<Rightarrow>
          (case delete_messages e conversationID w of
             (Some err, w') \<Rightarrow> (Inl err, w')
           | (None, w') \<Rightarrow> (Inr (VBool True), w'))
      | DeleteConversationStep conversationID \<Rightarrow>
          (case delete_conversation e conversationID w of
             (Some err, w') \<Rightarrow> (Inl err, w')
           | (None, w') \<Rightarrow> (Inr (VBool True), w')))"

section \<open>workflows/chat.go: the workflow functions\<close>

text \<open>
  A workflow function can reach the outside only through \<open>dbos.RunAsStep\<close>, so it is
  a tree: it either returns its Go result pair \<open>(output, err)\<close>, or asks for a step and
  continues with what the step call gave back.
\<close>

datatype workflow =
    Return "val \<times> error option"
  | RunAsStep step_body "error + val \<Rightarrow> workflow"

text \<open>\<open>RunAsStep\<close> is generic in its result type; a recorded output of another type does not decode.\<close>

fun as_messages :: "error + val \<Rightarrow> error + Message slice" where
  "as_messages (Inl err) = Inl err"
| "as_messages (Inr (VMessages ms)) = Inr ms"
| "as_messages (Inr _) = Inl (GoError ''cannot decode step output'')"

fun as_message :: "error + val \<Rightarrow> error + Message" where
  "as_message (Inl err) = Inl err"
| "as_message (Inr (VMessage m)) = Inr m"
| "as_message (Inr _) = Inl (GoError ''cannot decode step output'')"

fun as_string :: "error + val \<Rightarrow> error + string" where
  "as_string (Inl err) = Inl err"
| "as_string (Inr (VString s)) = Inr s"
| "as_string (Inr _) = Inl (GoError ''cannot decode step output'')"

fun as_bool :: "error + val \<Rightarrow> error + bool" where
  "as_bool (Inl err) = Inl err"
| "as_bool (Inr (VBool b)) = Inr b"
| "as_bool (Inr _) = Inl (GoError ''cannot decode step output'')"

fun as_conversation :: "error + val \<Rightarrow> error + Conversation" where
  "as_conversation (Inl err) = Inl err"
| "as_conversation (Inr (VConversation c)) = Inr c"
| "as_conversation (Inr _) = Inl (GoError ''cannot decode step output'')"

definition zero_Message :: Message where
  "zero_Message = \<lparr>ID = 0, ConversationID = 0, Role = [], Content = [], CreatedAt = 0\<rparr>"

definition zero_Conversation :: Conversation where
  "zero_Conversation = \<lparr>conv_ID = 0, conv_CreatedAt = 0\<rparr>"

definition zero_Output :: SendMessageOutput where
  "zero_Output = \<lparr>UserMessage = zero_Message, AssistantMessage = zero_Message\<rparr>"

definition SendMessageWorkflow :: "SendMessageInput \<Rightarrow> workflow" where
  "SendMessageWorkflow input =
     RunAsStep (GetMessagesStep (in_ConversationID input)) (\<lambda>r1.
       case as_messages r1 of
         Inl err \<Rightarrow> Return (VSendMessageOutput zero_Output, Some err)
       | Inr msgs \<Rightarrow>
     RunAsStep (SaveMessageStep (in_ConversationID input) ''user'' (in_Content input)) (\<lambda>r2.
       case as_message r2 of
         Inl err \<Rightarrow> Return (VSendMessageOutput zero_Output, Some err)
       | Inr userMsg \<Rightarrow>
     RunAsStep (ChatStep msgs (in_Content input)) (\<lambda>r3.
       case as_string r3 of
         Inl err \<Rightarrow> Return (VSendMessageOutput (zero_Output\<lparr>UserMessage := userMsg\<rparr>), Some err)
       | Inr aiResponse \<Rightarrow>
     RunAsStep (SaveMessageStep (in_ConversationID input) ''assistant'' aiResponse) (\<lambda>r4.
       case as_message r4 of
         Inl err \<Rightarrow> Return (VSendMessageOutput (zero_Output\<lparr>UserMessage := userMsg\<rparr>), Some err)
       | Inr assistantMsg \<Rightarrow>
           Return (VSendMessageOutput
                     \<lparr>UserMessage = userMsg, AssistantMessage = assistantMsg\<rparr>, None)))))"

definition CreateConversationWorkflow :: "string \<Rightarrow> workflow" where
  "CreateConversationWorkflow _ =
     RunAsStep CreateConversationStep (\<lambda>r.
       case as_conversation r of
         Inl err \<Rightarrow> Return (VConversation zero_Conversation, Some err)
       | Inr c \<Rightarrow> Return (VConversation c, None))"

definition DeleteConversationWorkflow :: "uuid \<Rightarrow> workflow" where
  "DeleteConversationWorkflow conversationID =
     RunAsStep (DeleteMessagesStep conversationID) (\<lambda>r1.
       case as_bool r1 of
         Inl err \<Rightarrow> Return (VBool False, Some err)
       | Inr _ \<Rightarrow>
     RunAsStep (DeleteConversationStep conversationID) (\<lambda>r2.
       case as_bool r2 of
         Inl err \<Rightarrow> Return (VBool False, Some err)
       | Inr b \<Rightarrow> Return (VBool b, None)))"

section \<open>The durable workflow engine\<close>

text \<open>
  Modelled from the spec: the data model of the engine (section 3), which is the library
  \<open>dbos-transact-golang\<close> behind \<open>dbos.RunWorkflow\<close>, \<open>dbos.RunAsStep\<close> and
  \<open>GetResult\<close>; the library's code is not among the sources. The timestamps of the two
  record types are left out: no operation reads them.
\<close>

datatype wf_status = PENDING | RUNNING | SUCCESS | ERROR

datatype step_status = STEP_RUNNING | STEP_SUCCESS | STEP_ERROR

record WorkflowExecution =
  workflow_name :: string
  exec_input :: val
  status :: wf_status
  exec_output :: "val option"
  error_detail :: "error option"

record StepRecord =
  step_status :: step_status
  step_output :: "val option"
  step_error :: "error option"
  attempt_count :: nat

text \<open>What the engine did, in order (a ghost log).\<close>

datatype engine_event =
    FunctionInvoked uuid
  | StepCall uuid nat step_body
  | BodyAttempt uuid nat nat
  | Backoff nat

record engine_state =
  executions :: "(uuid \<times> WorkflowExecution) list"
  step_records :: "((uuid \<times> nat) \<times> StepRecord) list"
  events :: "engine_event list"
  app :: world

text \<open>
  Modelled from the spec: the retry policy of a step class (section 4.3: a capped number
  of attempts, exponential backoff, the classification of failures), and the engine's
  configuration: the Workflow Registry of section 4.2, the policy of each step, and how
  a step body is run.
\<close>

record retry_policy =
  max_attempts :: nat
  base_interval :: nat
  backoff_rate :: nat
  transient :: "error \<Rightarrow> bool"

record engine =
  registry :: "(string \<times> (val \<Rightarrow> workflow)) list"
  policy :: "step_body \<Rightarrow> retry_policy"
  body_runner :: "step_body \<Rightarrow> world \<Rightarrow> (error + val) \<times> world"

definition terminal :: "wf_status \<Rightarrow> bool" where
  "terminal st = (st = SUCCESS \<or> st = ERROR)"

definition log_event :: "engine_event \<Rightarrow> engine_state \<Rightarrow> engine_state" where
  "log_event ev s = s\<lparr>events := events s @ [ev]\<rparr>"

text \<open>
  Modelled from the spec: the Persistence Store of section 4.1 (the engine's tables and
  their atomic primitives): create-if-absent of an execution row, update of one row,
  upsert of a step record keyed by \<open>(workflow_id, step_number)\<close>, and the query for the
  executions in a non-terminal status.
\<close>

definition create_if_absent :: "uuid \<Rightarrow> WorkflowExecution \<Rightarrow> engine_state \<Rightarrow> bool \<times> engine_state" where
  "create_if_absent wid row s =
     (case map_of (executions s) wid of
        Some _ \<Rightarrow> (False, s)
      | None \<Rightarrow> (True, s\<lparr>executions := executions s @ [(wid, row)]\<rparr>))"

definition update_execution ::
  "uuid \<Rightarrow> (WorkflowExecution \<Rightarrow> WorkflowExecution) \<Rightarrow> engine_state \<Rightarrow> engine_state" where
  "update_execution wid f s =
     s\<lparr>executions := map (\<lambda>(k, row). if k = wid then (k, f row) else (k, row)) (executions s)\<rparr>"

fun upsert :: "'k \<Rightarrow> 'v \<Rightarrow> ('k \<times> 'v) list \<Rightarrow> ('k \<times> 'v) list" where
  "upsert k v [] = [(k, v)]"
| "upsert k v ((k', v') # rest) =
     (if k' = k then (k, v) # rest else (k', v') # upsert k v rest)"

definition upsert_step :: "uuid \<Rightarrow> nat \<Rightarrow> StepRecord \<Rightarrow> engine_state \<Rightarrow> engine_state" where
  "upsert_step wid n r s = s\<lparr>step_records := upsert (wid, n) r (step_records s)\<rparr>"

definition non_terminal_ids :: "engine_state \<Rightarrow> uuid list" where
  "non_terminal_ids s = map fst (filter (\<lambda>(k, row). \<not> terminal (status row)) (executions s))"

definition recorded_output :: "engine_state \<Rightarrow> uuid \<Rightarrow> nat \<Rightarrow> val option" where
  "recorded_output s wid n =
     (case map_of (step_records s) (wid, n) of
        None \<Rightarrow> None
      | Some r \<Rightarrow> if step_status r = STEP_SUCCESS then step_output r else None)"

text \<open>
  Modelled from the spec: the retry loop of the Step Runner (section 4.3, item 2). The
  body is invoked; a failure classified as transient is retried after a backoff of
  \<open>base_interval * backoff_rate ^ (attempt - 1)\<close> while fewer than \<open>max_attempts\<close>
  attempts were made; a permanent failure is not retried. The result comes with the
  number of attempts made.
\<close>

function run_attempts ::
  "engine \<Rightarrow> uuid \<Rightarrow> nat \<Rightarrow> step_body \<Rightarrow> nat \<Rightarrow> engine_state \<Rightarrow> (error + val) \<times> nat \<times> engine_state" where
  "run_attempts E wid n b attempt s =
     (case body_runner E b (app s) of
        (Inr v, a) \<Rightarrow>
          (Inr v, attempt, (log_event (BodyAttempt wid n attempt) s)\<lparr>app := a\<rparr>)
      | (Inl err, a) \<Rightarrow>
          if transient (policy E b) err \<and> attempt < max_attempts (policy E b)
          then run_attempts E wid n b (Suc attempt)
                 (log_event
                    (Backoff (base_interval (policy E b) * backoff_rate (policy E b) ^ (attempt - 1)))
                    ((log_event (BodyAttempt wid n attempt) s)\<lparr>app := a\<rparr>))
          else (Inl err, attempt, (log_event (BodyAttempt wid n attempt) s)\<lparr>app := a\<rparr>))"
  by pat_completeness auto
termination
  by (relation "measure (\<lambda>(E, wid, n, b, attempt, s). max_attempts (policy E b) - attempt)") auto

text \<open>
  Modelled from the spec: \<open>RunStep(workflowID, stepNumber, stepName, body)\<close> of section
  4.3. A \<open>SUCCESS\<close> record at the position gives its output back and the body is not
  invoked; otherwise the body runs under the retry policy and the outcome is upserted,
  \<open>SUCCESS\<close> with the output or \<open>ERROR\<close> with the error detail.
\<close>

definition RunStep ::
  "engine \<Rightarrow> uuid \<Rightarrow> nat \<Rightarrow> step_body \<Rightarrow> engine_state \<Rightarrow> (error + val) \<times> engine_state" where
  "RunStep E wid n b s =
     (let s0 = log_event (StepCall wid n b) s in
      case recorded_output s0 wid n of
        Some v \<Rightarrow> (Inr v, s0)
      | None \<Rightarrow>
          (case run_attempts E wid n b 1 s0 of
             (Inr v, k, s1) \<Rightarrow>
               (Inr v, upsert_step wid n
                         \<lparr>step_status = STEP_SUCCESS, step_output = Some v,
                          step_error = None, attempt_count = k\<rparr> s1)
           | (Inl err, k, s1) \<Rightarrow>
               (Inl err, upsert_step wid n
                           \<lparr>step_status = STEP_ERROR, step_output = None,
                            step_error = Some err, attempt_count = k\<rparr> s1)))"

text \<open>
  Modelled from the spec: the Workflow Runtime driving a workflow function (section
  4.4): step numbers are assigned by the order in which the function reaches its step
  calls, starting at 1.
\<close>

primrec run_workflow ::
  "workflow \<Rightarrow> engine \<Rightarrow> uuid \<Rightarrow> nat \<Rightarrow> engine_state \<Rightarrow> (val \<times> error option) \<times> engine_state" where
  "run_workflow (Return r) E wid n s = (r, s)"
| "run_workflow (RunAsStep b k) E wid n s =
     (case RunStep E wid n b s of (r, s') \<Rightarrow> run_workflow (k r) E wid (Suc n) s')"

text \<open>
  Modelled from the spec: the two status transitions of section 4.4, each a
  compare-and-set on the row: \<open>PENDING\<close> to \<open>RUNNING\<close>, and \<open>RUNNING\<close> to \<open>SUCCESS\<close>
  with the output or to \<open>ERROR\<close> with the error detail.
\<close>

definition set_running :: "uuid \<Rightarrow> engine_state \<Rightarrow> engine_state" where
  "set_running wid s =
     update_execution wid (\<lambda>row. if status row = PENDING then row\<lparr>status := RUNNING\<rparr> else row) s"

definition finalize :: "uuid \<Rightarrow> val \<times> error option \<Rightarrow> engine_state \<Rightarrow> engine_state" where
  "finalize wid r s =
     update_execution wid
       (\<lambda>row. if status row \<noteq> RUNNING then row
              else (case snd r of
                      None \<Rightarrow> row\<lparr>status := SUCCESS, exec_output := Some (fst r)\<rparr>
                    | Some err \<Rightarrow> row\<lparr>status := ERROR, error_detail := Some err\<rparr>)) s"

text \<open>
  Modelled from the spec: the code path shared by \<open>Start\<close> and recovery (sections 4.4
  and 4.5) for an execution row that is not terminal: look the function up, move the row
  to \<open>RUNNING\<close>, call the function on the stored input, and record its result. A name
  with no registered function is the error \<open>UnknownWorkflow\<close>.
\<close>

definition execute :: "engine \<Rightarrow> uuid \<Rightarrow> engine_state \<Rightarrow> error option \<times> engine_state" where
  "execute E wid s =
     (case map_of (executions s) wid of
        None \<Rightarrow> (None, s)
      | Some row \<Rightarrow>
          if terminal (status row) then (None, s)
          else (case map_of (registry E) (workflow_name row) of
                  None \<Rightarrow> (Some (UnknownWorkflow (workflow_name row)), s)
                | Some f \<Rightarrow>
                    (case run_workflow (f (exec_input row)) E wid 1
                            (log_event (FunctionInvoked wid) (set_running wid s)) of
                       (r, s') \<Rightarrow> (None, finalize wid r s'))))"

text \<open>
  Modelled from the spec: \<open>Start(name, input, id)\<close> of section 4.4. The row is created
  if absent and the function is run; an existing row, terminal or not, is attached to
  and nothing is invoked. The handle is the execution id.
\<close>

definition Start :: "engine \<Rightarrow> string \<Rightarrow> val \<Rightarrow> uuid \<Rightarrow> engine_state \<Rightarrow> (error + uuid) \<times> engine_state" where
  "Start E name inp wid s =
     (case map_of (registry E) name of
        None \<Rightarrow> (Inl (UnknownWorkflow name), s)
      | Some f \<Rightarrow>
          (case create_if_absent wid
                  \<lparr>workflow_name = name, exec_input = inp, status = PENDING,
                   exec_output = None, error_detail = None\<rparr> s of
             (False, s') \<Rightarrow> (Inr wid, s')
           | (True, s') \<Rightarrow>
               (case execute E wid s' of
                  (Some err, s'') \<Rightarrow> (Inl err, s'')
                | (None, s'') \<Rightarrow> (Inr wid, s''))))"

text \<open>
  Modelled from the spec: the Recovery Manager of section 4.5: every execution found
  \<open>PENDING\<close> or \<open>RUNNING\<close> is driven through the code path of \<open>Start\<close>; an unregistered
  name stops recovery with an error.
\<close>

fun recover_all :: "engine \<Rightarrow> uuid list \<Rightarrow> engine_state \<Rightarrow> error option \<times> engine_state" where
  "recover_all E [] s = (None, s)"
| "recover_all E (wid # wids) s =
     (case execute E wid s of
        (Some err, s') \<Rightarrow> (Some err, s')
      | (None, s') \<Rightarrow> recover_all E wids s')"

definition Recover :: "engine \<Rightarrow> engine_state \<Rightarrow> error option \<times> engine_state" where
  "Recover E s = recover_all E (non_terminal_ids s) s"

text \<open>
  Modelled from the spec: \<open>handle.GetResult()\<close> of section 4.6. It blocks until the
  execution is terminal: \<open>None\<close> stands for a caller that is still blocked.
\<close>

definition GetResult :: "uuid \<Rightarrow> engine_state \<Rightarrow> (error + val) option" where
  "GetResult wid s =
     (case map_of (executions s) wid of
        None \<Rightarrow> None
      | Some row \<Rightarrow>
          (case status row of
             SUCCESS \<Rightarrow> (case exec_output row of Some v \<Rightarrow> Some (Inr v) | None \<Rightarrow> None)
           | ERROR \<Rightarrow> (case error_detail row of Some err \<Rightarrow> Some (Inl err) | None \<Rightarrow> None)
           | _ \<Rightarrow> None))"

text \<open>
  Modelled from the spec: \<open>dbos.RunWorkflow(ctx, fn, input)\<close> as the handlers call it,
  with no workflow id option: the engine generates the execution id (section 3) and
  starts the execution.
\<close>

definition RunWorkflow ::
  "env \<Rightarrow> engine \<Rightarrow> string \<Rightarrow> val \<Rightarrow> engine_state \<Rightarrow> (error + uuid) \<times> engine_state" where
  "RunWorkflow e E name inp s =
     (case uuid_New e (app s) of (wid, a) \<Rightarrow> Start E name inp wid (s\<lparr>app := a\<rparr>))"

section \<open>main.go: the registered workflows\<close>

definition chat_registry :: "(string \<times> (val \<Rightarrow> workflow)) list" where
  "chat_registry =
     [(''SendMessageWorkflow'',
         \<lambda>v. case v of VSendMessageInput i \<Rightarrow> SendMessageWorkflow i
                      | _ \<Rightarrow> Return (v, Some (GoError ''cannot decode workflow input''))),
      (''CreateConversationWorkflow'',
         \<lambda>v. case v of VString x \<Rightarrow> CreateConversationWorkflow x
                      | _ \<Rightarrow> Return (v, Some (GoError ''cannot decode workflow input''))),
      (''DeleteConversationWorkflow'',
         \<lambda>v. case v of VUUID c \<Rightarrow> DeleteConversationWorkflow c
                      | _ \<Rightarrow> Return (v, Some (GoError ''cannot decode workflow input'')))]"

definition dbosCtx :: "env \<Rightarrow> (step_body \<Rightarrow> retry_policy) \<Rightarrow> engine" where
  "dbosCtx e pol = \<lparr>registry = chat_registry, policy = pol, body_runner = run_body e\<rparr>"

section \<open>handlers/chat.go\<close>

datatype json =
    JNull
  | JString string
  | JUUID uuid
  | JTime time
  | JArray "json list"
  | JObject "(string \<times> json) list"

record response =
  code :: nat
  body :: json

definition Message_json :: "Message \<Rightarrow> json" where
  "Message_json m =
     JObject [(''id'', JUUID (ID m)), (''conversation_id'', JUUID (ConversationID m)),
              (''role'', JString (Role m)), (''content'', JString (Content m)),
              (''created_at'', JTime (CreatedAt m))]"

definition Conversation_json :: "Conversation \<Rightarrow> json" where
  "Conversation_json c =
     JObject [(''id'', JUUID (conv_ID c)), (''created_at'', JTime (conv_CreatedAt c))]"

definition ChatResponse_json :: "ChatResponse \<Rightarrow> json" where
  "ChatResponse_json r =
     JObject [(''user_message'', Message_json (resp_UserMessage r)),
              (''assistant_message'', Message_json (resp_AssistantMessage r))]"

fun slice_json :: "('a \<Rightarrow> json) \<Rightarrow> 'a slice \<Rightarrow> json" where
  "slice_json f NilSlice = JNull"
| "slice_json f (Slice xs) = JArray (map f xs)"

definition gin_H :: "string \<Rightarrow> string \<Rightarrow> json" where
  "gin_H k v = JObject [(k, JString v)]"

text \<open>
  A request as the handlers read it: the \<open>:id\<close> path parameter, and what decoding the
  body as JSON into a \<open>SendMessageRequest\<close> gives (a key that is absent leaves the
  field empty).
\<close>

record request =
  param_id :: string
  decoded_body :: "error + SendMessageRequest"

text \<open>
  \<open>c.ShouldBindJSON(&req)\<close>: the body is decoded, then the \<open>binding:"required"\<close> tag
  of \<open>Content\<close> rejects the empty string.
\<close>

definition ShouldBindJSON :: "request \<Rightarrow> error + SendMessageRequest" where
  "ShouldBindJSON r =
     (case decoded_body r of
        Inl err \<Rightarrow> Inl err
      | Inr req \<Rightarrow>
          if req_Content req = [] then Inl (GoError ''Field validation for Content failed on the required tag'')
          else Inr req)"

definition ListConversations :: "env \<Rightarrow> engine_state \<Rightarrow> response \<times> engine_state" where
  "ListConversations e s =
     (case query_conversations e (app s) of
        (Inl err, a) \<Rightarrow>
          (\<lparr>code = 500, body = gin_H ''error'' ''Failed to list conversations''\<rparr>, s\<lparr>app := a\<rparr>)
      | (Inr rows, a) \<Rightarrow>
          (\<lparr>code = 200,
            body = slice_json Conversation_json
                     (fold (\<lambda>conv acc. append_slice acc conv) rows (Slice []))\<rparr>,
           s\<lparr>app := a\<rparr>))"

definition GetMessages :: "env \<Rightarrow> request \<Rightarrow> engine_state \<Rightarrow> response \<times> engine_state" where
  "GetMessages e r s =
     (case uuid_Parse e (param_id r) of
        None \<Rightarrow> (\<lparr>code = 400, body = gin_H ''error'' ''Invalid conversation ID''\<rparr>, s)
      | Some cid \<Rightarrow>
          (case query_messages e cid (app s) of
             (Inl err, a) \<Rightarrow>
               (\<lparr>code = 500, body = gin_H ''error'' ''Failed to get messages''\<rparr>, s\<lparr>app := a\<rparr>)
           | (Inr rows, a) \<Rightarrow>
               (\<lparr>code = 200,
                 body = slice_json Message_json
                          (fold (\<lambda>msg acc. append_slice acc msg) rows (Slice []))\<rparr>,
                s\<lparr>app := a\<rparr>)))"

text \<open>
  The two handlers below wait in \<open>handle.GetResult()\<close>; the response is \<open>None\<close> while
  the caller is blocked there.
\<close>

definition DeleteConversation ::
  "env \<Rightarrow> (step_body \<Rightarrow> retry_policy) \<Rightarrow> request \<Rightarrow> engine_state \<Rightarrow> response option \<times> engine_state" where
  "DeleteConversation e pol r s =
     (case uuid_Parse e (param_id r) of
        None \<Rightarrow> (Some \<lparr>code = 400, body = gin_H ''error'' ''Invalid conversation ID''\<rparr>, s)
      | Some cid \<Rightarrow>
          (case RunWorkflow e (dbosCtx e pol) ''DeleteConversationWorkflow'' (VUUID cid) s of
             (Inl err, s') \<Rightarrow>
               (Some \<lparr>code = 500, body = gin_H ''error'' ''Failed to delete conversation''\<rparr>, s')
           | (Inr handle, s') \<Rightarrow>
               (case GetResult handle s' of
                  None \<Rightarrow> (None, s')
                | Some (Inl err) \<Rightarrow>
                    (Some \<lparr>code = 500, body = gin_H ''error'' ''Failed to delete conversation''\<rparr>, s')
                | Some (Inr _) \<Rightarrow>
                    (Some \<lparr>code = 200, body = gin_H ''message'' ''Conversation deleted''\<rparr>, s'))))"

definition SendMessage ::
  "env \<Rightarrow> (step_body \<Rightarrow> retry_policy) \<Rightarrow> request \<Rightarrow> engine_state \<Rightarrow> response option \<times> engine_state" where
  "SendMessage e pol r s =
     (case uuid_Parse e (param_id r) of
        None \<Rightarrow> (Some \<lparr>code = 400, body = gin_H ''error'' ''Invalid conversation ID''\<rparr>, s)
      | Some cid \<Rightarrow>
          (case ShouldBindJSON r of
             Inl err \<Rightarrow> (Some \<lparr>code = 400, body = gin_H ''error'' ''Invalid request body''\<rparr>, s)
           | Inr req \<Rightarrow>
               (case query_exists e cid (app s) of
                  (ex, a) \<Rightarrow>
                    if ex \<noteq> Inr True
                    then (Some \<lparr>code = 404, body = gin_H ''error'' ''Conversation not found''\<rparr>,
                          s\<lparr>app := a\<rparr>)
                    else
                      (case RunWorkflow e (dbosCtx e pol) ''SendMessageWorkflow''
                              (VSendMessageInput
                                 \<lparr>in_ConversationID = cid, in_Content = req_Content req\<rparr>)
                              (s\<lparr>app := a\<rparr>) of
                         (Inl err, s') \<Rightarrow>
                           (Some \<lparr>code = 500, body = gin_H ''error'' ''Failed to send message''\<rparr>, s')
                       | (Inr handle, s') \<Rightarrow>
                           (case GetResult handle s' of
                              None \<Rightarrow> (None, s')
                            | Some (Inl err) \<Rightarrow>
                                (Some \<lparr>code = 500,
                                       body = gin_H ''error''
                                                (''Failed to get AI response: '' @ Error err)\<rparr>, s')
                            | Some (Inr v) \<Rightarrow>
                                (case v of
                                   VSendMessageOutput out \<Rightarrow>
                                     (Some \<lparr>code = 200,
                                            body = ChatResponse_json
                                                     \<lparr>resp_UserMessage = UserMessage out,
                                                      resp_AssistantMessage = AssistantMessage out\<rparr>\<rparr>,
                                      s')
                                 | _ \<Rightarrow>
                                     (Some \<lparr>code = 500,
                                            body = gin_H ''error''
                                                     (''Failed to get AI response: ''
                                                      @ ''cannot decode workflow output'')\<rparr>, s')))))))"

section \<open>Reading the ghost logs\<close>

text \<open>How often the body at position \<open>n\<close> of execution \<open>wid\<close> was invoked.\<close>

fun is_attempt_at :: "uuid \<Rightarrow> nat \<Rightarrow> engine_event \<Rightarrow> bool" where
  "is_attempt_at wid n (BodyAttempt w m k) = (w = wid \<and> m = n)"
| "is_attempt_at wid n _ = False"

definition attempts_at :: "uuid \<Rightarrow> nat \<Rightarrow> engine_event list \<Rightarrow> nat" where
  "attempts_at wid n evs = length (filter (is_attempt_at wid n) evs)"

text \<open>How often the workflow function of execution \<open>wid\<close> was invoked.\<close>

fun is_invocation_of :: "uuid \<Rightarrow> engine_event \<Rightarrow> bool" where
  "is_invocation_of wid (FunctionInvoked w) = (w = wid)"
| "is_invocation_of wid _ = False"

definition invocations :: "uuid \<Rightarrow> engine_event list \<Rightarrow> nat" where
  "invocations wid evs = length (filter (is_invocation_of wid) evs)"

text \<open>The backoff delays and the step calls of a log, in order.\<close>

fun delays :: "engine_event list \<Rightarrow> nat list" where
  "delays [] = []"
| "delays (Backoff d # evs) = d # delays evs"
| "delays (_ # evs) = delays evs"

fun is_step_call :: "engine_event \<Rightarrow> bool" where
  "is_step_call (StepCall w n b) = True"
| "is_step_call _ = False"

definition step_calls :: "engine_event list \<Rightarrow> engine_event list" where
  "step_calls evs = filter is_step_call evs"

text \<open>The events that the retry loop of position \<open>n\<close> of execution \<open>wid\<close> may log.\<close>

fun engine_internal :: "uuid \<Rightarrow> nat \<Rightarrow> engine_event \<Rightarrow> bool" where
  "engine_internal wid n (BodyAttempt w m k) = (w = wid \<and> m = n)"
| "engine_internal wid n (Backoff d) = True"
| "engine_internal wid n _ = False"

section \<open>The order of statuses and the operations of the engine\<close>

text \<open>
  The transitions \<open>PENDING \<rightarrow> RUNNING \<rightarrow> SUCCESS | ERROR\<close>, closed under reflexivity and
  transitivity; a row that is terminal stays as it is.
\<close>

fun status_le :: "wf_status \<Rightarrow> wf_status \<Rightarrow> bool" where
  "status_le PENDING _ = True"
| "status_le RUNNING st = (st \<noteq> PENDING)"
| "status_le SUCCESS st = (st = SUCCESS)"
| "status_le ERROR st = (st = ERROR)"

definition row_le :: "WorkflowExecution \<Rightarrow> WorkflowExecution \<Rightarrow> bool" where
  "row_le r r' = (status_le (status r) (status r') \<and> (terminal (status r) \<longrightarrow> r' = r))"

datatype engine_op = OpStart string val uuid | OpRecover

fun apply_op :: "engine \<Rightarrow> engine_op \<Rightarrow> engine_state \<Rightarrow> engine_state" where
  "apply_op E (OpStart name inp wid) s = snd (Start E name inp wid s)"
| "apply_op E OpRecover s = snd (Recover E s)"

fun apply_ops :: "engine \<Rightarrow> engine_op list \<Rightarrow> engine_state \<Rightarrow> engine_state" where
  "apply_ops E [] s = s"
| "apply_ops E (op # ops) s = apply_ops E ops (apply_op E op s)"

section \<open>A sample environment and sample states\<close>

text \<open>
  An environment in which nothing fails, a database with one conversation and no
  message, and an engine with empty tables; the request parameter \<open>c1\<close> is the only
  string that parses as a UUID.
\<close>

definition env0 :: env where
  "env0 = \<lparr>uuid_source = (\<lambda>n. of_nat n + 100), clock = (\<lambda>n. n),
           db_error = (\<lambda>n. None),
           http_Do = (\<lambda>n req. Response 200 ''{}'' (Inr [''hello''])),
           uuid_Parse = (\<lambda>s. if s = ''c1'' then Some 1 else None)\<rparr>"

definition world0 :: world where
  "world0 = \<lparr>conversations = [\<lparr>conv_ID = 1, conv_CreatedAt = 0\<rparr>], messages = [],
             tick = 0, calls = []\<rparr>"

definition state0 :: engine_state where
  "state0 = \<lparr>executions = [], step_records = [], events = [], app = world0\<rparr>"

definition pol0 :: "step_body \<Rightarrow> retry_policy" where
  "pol0 = (\<lambda>b. \<lparr>max_attempts = 3, base_interval = 1, backoff_rate = 2,
                 transient = (\<lambda>err. True)\<rparr>)"

definition request0 :: request where
  "request0 = \<lparr>param_id = ''c1'', decoded_body = Inr \<lparr>req_Content = ''hi''\<rparr>\<rparr>"

text \<open>
  The state left by a crash of a \<open>SendMessageWorkflow\<close> execution after its second
  step was recorded: the row is \<open>RUNNING\<close>, steps 1 and 2 are \<open>SUCCESS\<close>, and the user
  message is in the table.
\<close>

definition user103 :: Message where
  "user103 = \<lparr>ID = 103, ConversationID = 1, Role = ''user'', Content = ''hi'', CreatedAt = 4\<rparr>"

definition assistant107 :: Message where
  "assistant107 = \<lparr>ID = 107, ConversationID = 1, Role = ''assistant'', Content = ''hello'',
                    CreatedAt = 8\<rparr>"

definition crashed1 :: engine_state where
  "crashed1 =
     \<lparr>executions =
        [(101, \<lparr>workflow_name = ''SendMessageWorkflow'',
                exec_input = VSendMessageInput \<lparr>in_ConversationID = 1, in_Content = ''hi''\<rparr>,
                status = RUNNING, exec_output = None, error_detail = None\<rparr>)],
      step_records =
        [((101, 1), \<lparr>step_status = STEP_SUCCESS, step_output = Some (VMessages NilSlice),
                     step_error = None, attempt_count = 1\<rparr>),
         ((101, 2), \<lparr>step_status = STEP_SUCCESS, step_output = Some (VMessage user103),
                     step_error = None, attempt_count = 1\<rparr>)],
      events =
        [FunctionInvoked 101, StepCall 101 1 (GetMessagesStep 1), BodyAttempt 101 1 1,
         StepCall 101 2 (SaveMessageStep 1 ''user'' ''hi''), BodyAttempt 101 2 1],
      app = \<lparr>conversations = [\<lparr>conv_ID = 1, conv_CreatedAt = 0\<rparr>], messages = [user103],
             tick = 6,
             calls = [ExistsConversation 1, SelectMessages 1, InsertMessage user103]\<rparr>\<rparr>"

text \<open>
  The same environment with the model server unreachable, a policy that classifies no
  failure as transient, and the rest of \<open>SendMessageWorkflow\<close> from its third step call
  on, as the crashed execution above reaches it.
\<close>

definition env_down :: env where
  "env_down = env0\<lparr>http_Do := (\<lambda>n req. SendError (GoError ''connection refused''))\<rparr>"

definition pol_never :: "step_body \<Rightarrow> retry_policy" where
  "pol_never = (\<lambda>b. \<lparr>max_attempts = 3, base_interval = 1, backoff_rate = 2,
                      transient = (\<lambda>err. False)\<rparr>)"

definition tail3 :: "error + val \<Rightarrow> workflow" where
  "tail3 = (\<lambda>r3.
       case as_string r3 of
         Inl err \<Rightarrow> Return (VSendMessageOutput (zero_Output\<lparr>UserMessage := user103\<rparr>), Some err)
       | Inr aiResponse \<Rightarrow>
     RunAsStep (SaveMessageStep 1 ''assistant'' aiResponse) (\<lambda>r4.
       case as_message r4 of
         Inl err \<Rightarrow> Return (VSendMessageOutput (zero_Output\<lparr>UserMessage := user103\<rparr>), Some err)
       | Inr assistantMsg \<Rightarrow>
           Return (VSendMessageOutput
                     \<lparr>UserMessage = user103, AssistantMessage = assistantMsg\<rparr>, None)))"

text \<open>
  The state left by a crash inside the second step, after the insert of the user
  message was committed and before the step was recorded.
\<close>

definition lost2 :: engine_state where
  "lost2 = crashed1\<lparr>step_records :=
             [((101, 1), \<lparr>step_status = STEP_SUCCESS, step_output = Some (VMessages NilSlice),
                          step_error = None, attempt_count = 1\<rparr>)]\<rparr>"

definition user106 :: Message where
  "user106 = \<lparr>ID = 106, ConversationID = 1, Role = ''user'', Content = ''hi'', CreatedAt = 7\<rparr>"

text \<open>The input and the two messages of a first run of \<open>SendMessageWorkflow\<close>.\<close>

definition input0 :: SendMessageInput where
  "input0 = \<lparr>in_ConversationID = 1, in_Content = ''hi''\<rparr>"

definition user101 :: Message where
  "user101 = \<lparr>ID = 101, ConversationID = 1, Role = ''user'', Content = ''hi'', CreatedAt = 2\<rparr>"

definition assistant105 :: Message where
  "assistant105 = \<lparr>ID = 105, ConversationID = 1, Role = ''assistant'', Content = ''hello'',
                    CreatedAt = 6\<rparr>"

text \<open>A request for a conversation id that parses and has no row.\<close>

definition request_missing :: request where
  "request_missing = \<lparr>param_id = ''c2'', decoded_body = Inl (GoError ''EOF'')\<rparr>"

definition env2 :: env where
  "env2 = env0\<lparr>uuid_Parse := (\<lambda>s. if s = ''c1'' then Some 1 else if s = ''c2'' then Some 2 else None)\<rparr>"

section \<open>The read-only handlers\<close>

lemma fold_append_slice:
  "fold (\<lambda>x acc. append_slice acc x) rows (Slice ys) = Slice (ys @ rows)"
  by (induction rows arbitrary: ys) auto

text \<open>
  Claim C9. When the path parameter parses and the query does not fail, \<open>GetMessages\<close>
  answers 200 with a JSON array of exactly the messages of that conversation, in
  ascending order of \<open>created_at\<close>, and \<open>ListConversations\<close> answers 200 with a JSON
  array of all conversations in descending order of \<open>created_at\<close>. The body is an
  array, not \<open>null\<close>, also when there is no row.
\<close>

theorem listing_sorted:
  assumes parse: "uuid_Parse e (param_id r) = Some cid"
      and db: "db_error e (tick (app s)) = None"
  shows "\<exists>rows convs.
           fst (GetMessages e r s) = \<lparr>code = 200, body = JArray (map Message_json rows)\<rparr> \<and>
           mset rows = mset (filter (\<lambda>m. ConversationID m = cid) (messages (app s))) \<and>
           sorted (map CreatedAt rows) \<and>
           fst (ListConversations e s)
             = \<lparr>code = 200, body = JArray (map Conversation_json convs)\<rparr> \<and>
           mset convs = mset (conversations (app s)) \<and>
           sorted (rev (map conv_CreatedAt convs)) \<and>
           body (fst (GetMessages e r s)) \<noteq> JNull \<and>
           body (fst (ListConversations e s)) \<noteq> JNull"
proof -
  let ?rows = "sort_key CreatedAt (filter (\<lambda>m. ConversationID m = cid) (messages (app s)))"
  let ?convs = "rev (sort_key conv_CreatedAt (conversations (app s)))"
  have g: "fst (GetMessages e r s) = \<lparr>code = 200, body = JArray (map Message_json ?rows)\<rparr>"
    using parse db by (simp add: GetMessages_def query_messages_def fold_append_slice)
  have l: "fst (ListConversations e s)
             = \<lparr>code = 200, body = JArray (map Conversation_json ?convs)\<rparr>"
    using db by (simp add: ListConversations_def query_conversations_def fold_append_slice)
  have s2: "sorted (rev (map conv_CreatedAt ?convs))"
    by (simp add: rev_map)
  show ?thesis
    apply (rule exI [of _ ?rows], rule exI [of _ ?convs])
    using g l s2 by simp
qed

theorem listing_sorted_witness:
  "uuid_Parse env0 (param_id request0) = Some 1 \<and>
   db_error env0 (tick (app state0)) = None \<and>
   fst (GetMessages env0 request0 state0) = \<lparr>code = 200, body = JArray []\<rparr> \<and>
   fst (ListConversations env0 (state0\<lparr>app := world0\<lparr>conversations := []\<rparr>\<rparr>))
     = \<lparr>code = 200, body = JArray []\<rparr>"
proof -
  have p: "uuid_Parse env0 (param_id request0) = Some 1"
    by (simp add: env0_def request0_def)
  have d: "db_error env0 (tick (app state0)) = None"
    by (simp add: env0_def)
  have d': "db_error env0 (tick (app (state0\<lparr>app := world0\<lparr>conversations := []\<rparr>\<rparr>))) = None"
    by (simp add: env0_def)
  from listing_sorted [OF p d] listing_sorted [OF p d'] p d
  show ?thesis
    by (auto simp: state0_def world0_def)
qed

section \<open>The engine: frame properties\<close>

declare run_attempts.simps [simp del]

lemma map_of_upsert: "map_of (upsert k v xs) = (map_of xs)(k \<mapsto> v)"
  by (induction xs) (auto simp: fun_eq_iff)

lemma run_attempts_frame:
  "run_attempts E wid n b k s = (r, j, s') \<Longrightarrow>
     executions s' = executions s \<and> step_records s' = step_records s \<and>
     (\<exists>new. events s' = events s @ new \<and> list_all (engine_internal wid n) new)"
proof (induction E wid n b k s arbitrary: r j s' rule: run_attempts.induct)
  case (1 E wid n b attempt s)
  obtain res a where br: "body_runner E b (app s) = (res, a)"
    by force
  show ?case
  proof (cases res)
    case (Inr v)
    with br "1.prems" show ?thesis
      by (auto simp: run_attempts.simps [of E wid n b attempt s] log_event_def)
  next
    case (Inl err)
    show ?thesis
    proof (cases "transient (policy E b) err \<and> attempt < max_attempts (policy E b)")
      case False
      with br Inl "1.prems" show ?thesis
        by (auto simp: run_attempts.simps [of E wid n b attempt s] log_event_def)
    next
      case True
      let ?s1 = "log_event
                   (Backoff (base_interval (policy E b) * backoff_rate (policy E b) ^ (attempt - 1)))
                   ((log_event (BodyAttempt wid n attempt) s)\<lparr>app := a\<rparr>)"
      from br Inl True "1.prems" have "run_attempts E wid n b (Suc attempt) ?s1 = (r, j, s')"
        by (simp add: run_attempts.simps [of E wid n b attempt s])
      with "1.IH" br Inl True
      have "executions s' = executions ?s1 \<and> step_records s' = step_records ?s1 \<and>
            (\<exists>new. events s' = events ?s1 @ new \<and> list_all (engine_internal wid n) new)"
        by auto
      then show ?thesis
        by (auto simp: log_event_def)
    qed
  qed
qed

lemma attempts_at_internal:
  "list_all (engine_internal wid' m) new \<Longrightarrow> (wid', m) \<noteq> (wid, n) \<Longrightarrow>
     attempts_at wid n (evs @ new) = attempts_at wid n evs"
proof (induction new)
  case Nil
  then show ?case by simp
next
  case (Cons ev new)
  then show ?case by (cases ev) (auto simp: attempts_at_def)
qed

lemma invocations_internal:
  "list_all (engine_internal wid' m) new \<Longrightarrow> invocations wid (evs @ new) = invocations wid evs"
proof (induction new)
  case Nil
  then show ?case by simp
next
  case (Cons ev new)
  then show ?case by (cases ev) (auto simp: invocations_def)
qed

lemma run_attempts_other:
  "run_attempts E wid' m b k s = (r, j, s') \<Longrightarrow> (wid', m) \<noteq> (wid, n) \<Longrightarrow>
     attempts_at wid n (events s') = attempts_at wid n (events s)"
  by (auto dest!: run_attempts_frame simp: attempts_at_internal)

lemma run_attempts_invocations:
  "run_attempts E wid' m b k s = (r, j, s') \<Longrightarrow>
     invocations wid (events s') = invocations wid (events s)"
  by (auto dest!: run_attempts_frame simp: invocations_internal)

lemma RunStep_hit:
  "recorded_output s wid n = Some v \<Longrightarrow> RunStep E wid n b s = (Inr v, log_event (StepCall wid n b) s)"
  by (simp add: RunStep_def recorded_output_def log_event_def)

lemma recorded_output_log [simp]:
  "recorded_output (log_event ev s) wid n = recorded_output s wid n"
  by (simp add: recorded_output_def log_event_def)

lemma RunStep_frame:
  assumes run: "RunStep E wid n b s = (r, s')"
  shows "executions s' = executions s \<and>
         (\<exists>new. events s' = events s @ StepCall wid n b # new \<and>
                list_all (engine_internal wid n) new) \<and>
         (\<forall>key. key \<noteq> (wid, n) \<longrightarrow>
                map_of (step_records s') key = map_of (step_records s) key)"
proof (cases "recorded_output s wid n")
  case (Some v)
  with run show ?thesis
    by (auto simp: RunStep_hit log_event_def)
next
  case None
  let ?s0 = "log_event (StepCall wid n b) s"
  obtain r1 k s1 where ra: "run_attempts E wid n b 1 ?s0 = (r1, k, s1)"
    by (metis prod_cases3)
  from run_attempts_frame [OF ra]
  have fr: "executions s1 = executions s" "step_records s1 = step_records s"
           "\<exists>new. events s1 = events s @ StepCall wid n b # new \<and>
                  list_all (engine_internal wid n) new"
    by (auto simp: log_event_def)
  from run None ra have "\<exists>rec. s' = upsert_step wid n rec s1"
    by (auto simp: RunStep_def Let_def split: sum.splits)
  with fr show ?thesis
    by (auto simp: upsert_step_def map_of_upsert)
qed

lemma RunStep_keeps_record:
  assumes "recorded_output s wid n = Some v" and "RunStep E wid' m b s = (r, s')"
  shows "recorded_output s' wid n = Some v \<and>
         attempts_at wid n (events s') = attempts_at wid n (events s)"
proof (cases "(wid', m) = (wid, n)")
  case True
  with assms show ?thesis
    by (auto simp: RunStep_hit log_event_def recorded_output_def attempts_at_def)
next
  case False
  from RunStep_frame [OF assms(2)] obtain new where
    ev: "events s' = events s @ StepCall wid' m b # new" "list_all (engine_internal wid' m) new"
    and st: "map_of (step_records s') (wid, n) = map_of (step_records s) (wid, n)"
    using False by auto
  have "attempts_at wid n (events s') = attempts_at wid n (events s @ [StepCall wid' m b])"
    using ev False attempts_at_internal [of wid' m new wid n "events s @ [StepCall wid' m b]"]
    by simp
  with st assms(1) show ?thesis
    by (simp add: recorded_output_def attempts_at_def)
qed

lemma RunStep_invocations:
  "RunStep E wid' n b s = (r, s') \<Longrightarrow> invocations wid (events s') = invocations wid (events s)"
proof -
  assume "RunStep E wid' n b s = (r, s')"
  from RunStep_frame [OF this] obtain new where
    ev: "events s' = events s @ StepCall wid' n b # new" "list_all (engine_internal wid' n) new"
    by auto
  have "invocations wid (events s') = invocations wid (events s @ [StepCall wid' n b])"
    using ev invocations_internal [of wid' n new wid "events s @ [StepCall wid' n b]"] by simp
  then show ?thesis
    by (simp add: invocations_def)
qed

lemma run_workflow_keeps_record:
  "recorded_output s wid n = Some v \<Longrightarrow> run_workflow w E wid' m s = (r, s') \<Longrightarrow>
     recorded_output s' wid n = Some v \<and>
     attempts_at wid n (events s') = attempts_at wid n (events s)"
proof (induction w arbitrary: m s)
  case (Return x)
  then show ?case by simp
next
  case (RunAsStep b k)
  obtain r1 s1 where rs: "RunStep E wid' m b s = (r1, s1)"
    by force
  from RunStep_keeps_record [OF RunAsStep.prems(1) rs]
  have k1: "recorded_output s1 wid n = Some v"
    and k2: "attempts_at wid n (events s1) = attempts_at wid n (events s)"
    by auto
  from RunAsStep.prems(2) rs have "run_workflow (k r1) E wid' (Suc m) s1 = (r, s')"
    by simp
  from RunAsStep.IH [OF _ k1 this] k2 show ?case
    by simp
qed

lemma run_workflow_frame:
  "run_workflow w E wid' m s = (r, s') \<Longrightarrow>
     executions s' = executions s \<and> invocations wid (events s') = invocations wid (events s)"
proof (induction w arbitrary: m s)
  case (Return x)
  then show ?case by simp
next
  case (RunAsStep b k)
  obtain r1 s1 where rs: "RunStep E wid' m b s = (r1, s1)"
    by force
  from RunAsStep.prems rs have "run_workflow (k r1) E wid' (Suc m) s1 = (r, s')"
    by simp
  from RunAsStep.IH [OF _ this] RunStep_frame [OF rs] RunStep_invocations [OF rs, of wid]
  show ?case
    by simp
qed


lemma update_execution_fields [simp]:
  "step_records (update_execution wid f s) = step_records s"
  "events (update_execution wid f s) = events s"
  "app (update_execution wid f s) = app s"
  by (simp_all add: update_execution_def)

lemma map_of_update_execution:
  "map_of (executions (update_execution wid f s)) w
     = map_option (\<lambda>row. if w = wid then f row else row) (map_of (executions s) w)"
proof -
  have "map_of (map (\<lambda>(k, row). if k = wid then (k, f row) else (k, row)) xs) w
          = map_option (\<lambda>row. if w = wid then f row else row) (map_of xs w)" for xs
    by (induction xs) auto
  then show ?thesis
    by (simp add: update_execution_def)
qed

lemma keys_update_execution [simp]:
  "map fst (executions (update_execution wid f s)) = map fst (executions s)"
  by (simp add: update_execution_def comp_def case_prod_beta)

lemma recorded_output_update [simp]:
  "recorded_output (update_execution wid f s) w n = recorded_output s w n"
  by (simp add: recorded_output_def)

text \<open>What \<open>execute\<close> does to a row that is not terminal and whose function is registered.\<close>

lemma execute_cases:
  obtains (idle) "execute E wid s = (None, s)"
  | (unknown) name where "execute E wid s = (Some (UnknownWorkflow name), s)"
  | (ran) row f r s1 where
      "map_of (executions s) wid = Some row" "\<not> terminal (status row)"
      "map_of (registry E) (workflow_name row) = Some f"
      "run_workflow (f (exec_input row)) E wid 1
         (log_event (FunctionInvoked wid) (set_running wid s)) = (r, s1)"
      "execute E wid s = (None, finalize wid r s1)"
proof (cases "map_of (executions s) wid")
  case None
  then have "execute E wid s = (None, s)" by (simp add: execute_def)
  then show ?thesis by (rule idle)
next
  case (Some row)
  show ?thesis
  proof (cases "terminal (status row)")
    case True
    with Some have "execute E wid s = (None, s)" by (simp add: execute_def)
    then show ?thesis by (rule idle)
  next
    case False
    show ?thesis
    proof (cases "map_of (registry E) (workflow_name row)")
      case None
      with Some False have "execute E wid s = (Some (UnknownWorkflow (workflow_name row)), s)"
        by (simp add: execute_def)
      then show ?thesis by (rule unknown)
    next
      case (Some f)
      obtain r s1 where rw: "run_workflow (f (exec_input row)) E wid 1
         (log_event (FunctionInvoked wid) (set_running wid s)) = (r, s1)"
        by (meson surj_pair)
      with \<open>map_of (executions s) wid = Some row\<close> False Some
      have "execute E wid s = (None, finalize wid r s1)"
        by (simp add: execute_def)
      with \<open>map_of (executions s) wid = Some row\<close> False Some rw show ?thesis
        by (rule ran)
    qed
  qed
qed

lemma execute_keeps_record:
  assumes rec: "recorded_output s wid n = Some v"
  shows "recorded_output (snd (execute E wid' s)) wid n = Some v \<and>
         attempts_at wid n (events (snd (execute E wid' s))) = attempts_at wid n (events s)"
proof (cases E wid' s rule: execute_cases)
  case idle
  with rec show ?thesis by simp
next
  case (unknown name)
  with rec show ?thesis by simp
next
  case (ran row f r s1)
  have "recorded_output (log_event (FunctionInvoked wid') (set_running wid' s)) wid n = Some v"
    using rec by (simp add: set_running_def)
  from run_workflow_keeps_record [OF this ran(4)]
  have "recorded_output s1 wid n = Some v"
    and "attempts_at wid n (events s1) = attempts_at wid n (events s)"
    by (auto simp: log_event_def set_running_def attempts_at_def)
  with ran(5) show ?thesis
    by (simp add: finalize_def)
qed

lemma recover_all_keeps_record:
  "recorded_output s wid n = Some v \<Longrightarrow>
     recorded_output (snd (recover_all E wids s)) wid n = Some v \<and>
     attempts_at wid n (events (snd (recover_all E wids s))) = attempts_at wid n (events s)"
proof (induction wids arbitrary: s)
  case Nil
  then show ?case by simp
next
  case (Cons w wids)
  obtain err s1 where ex: "execute E w s = (err, s1)"
    by force
  from execute_keeps_record [OF Cons.prems, of E w] ex
  have k: "recorded_output s1 wid n = Some v"
    "attempts_at wid n (events s1) = attempts_at wid n (events s)"
    by auto
  show ?case
  proof (cases err)
    case None
    with ex Cons.IH [OF k(1)] k(2) show ?thesis by simp
  next
    case (Some e)
    with ex k show ?thesis by simp
  qed
qed

section \<open>Replay\<close>

text \<open>
  Claim C2. When the step at position \<open>n\<close> of execution \<open>wid\<close> is recorded as
  \<open>SUCCESS\<close> with output \<open>v\<close>, a step call at that position gives \<open>v\<close> back to the
  workflow function without running the body (the application's world is untouched and
  no attempt is logged), and running any workflow function under that id again, through
  the code path of \<open>Start\<close> or through recovery, never invokes the body of position \<open>n\<close>
  and leaves the recorded output as it is.
\<close>

theorem replay_skip:
  assumes rec: "recorded_output s wid n = Some v"
  shows "RunStep E wid n b s = (Inr v, log_event (StepCall wid n b) s) \<and>
         app (snd (RunStep E wid n b s)) = app s \<and>
         attempts_at wid n (events (snd (RunStep E wid n b s))) = attempts_at wid n (events s) \<and>
         recorded_output (snd (run_workflow w E wid m s)) wid n = Some v \<and>
         attempts_at wid n (events (snd (run_workflow w E wid m s))) = attempts_at wid n (events s) \<and>
         recorded_output (snd (execute E wid s)) wid n = Some v \<and>
         attempts_at wid n (events (snd (execute E wid s))) = attempts_at wid n (events s) \<and>
         recorded_output (snd (Recover E s)) wid n = Some v \<and>
         attempts_at wid n (events (snd (Recover E s))) = attempts_at wid n (events s)"
proof -
  have a: "RunStep E wid n b s = (Inr v, log_event (StepCall wid n b) s)"
    using rec by (rule RunStep_hit)
  have b: "recorded_output (snd (run_workflow w E wid m s)) wid n = Some v \<and>
           attempts_at wid n (events (snd (run_workflow w E wid m s))) = attempts_at wid n (events s)"
    using run_workflow_keeps_record [OF rec, of w E wid m] by (cases "run_workflow w E wid m s") simp
  from a b execute_keeps_record [OF rec, of E wid] recover_all_keeps_record [OF rec, of E]
  show ?thesis
    by (simp add: Recover_def log_event_def attempts_at_def)
qed

theorem replay_skip_witness:
  "recorded_output crashed1 101 2 = Some (VMessage user103) \<and>
   RunStep (dbosCtx env0 pol0) 101 2 (SaveMessageStep 1 ''user'' ''hi'') crashed1
     = (Inr (VMessage user103),
        log_event (StepCall 101 2 (SaveMessageStep 1 ''user'' ''hi'')) crashed1) \<and>
   attempts_at 101 2 (events (snd (Recover (dbosCtx env0 pol0) crashed1))) = 1 \<and>
   recorded_output (snd (Recover (dbosCtx env0 pol0) crashed1)) 101 2
     = Some (VMessage user103) \<and>
   GetResult 101 (snd (Recover (dbosCtx env0 pol0) crashed1))
     = Some (Inr (VSendMessageOutput
                    \<lparr>UserMessage = user103, AssistantMessage = assistant107\<rparr>)) \<and>
   messages (app (snd (Recover (dbosCtx env0 pol0) crashed1))) = [user103, assistant107]"
proof -
  have r: "recorded_output crashed1 101 2 = Some (VMessage user103)"
    by code_simp
  have a: "attempts_at 101 2 (events crashed1) = 1"
    by code_simp
  have g: "GetResult 101 (snd (Recover (dbosCtx env0 pol0) crashed1))
             = Some (Inr (VSendMessageOutput
                            \<lparr>UserMessage = user103, AssistantMessage = assistant107\<rparr>))"
    by code_simp
  have m: "messages (app (snd (Recover (dbosCtx env0 pol0) crashed1))) = [user103, assistant107]"
    by code_simp
  from replay_skip [OF r, of "dbosCtx env0 pol0" "SaveMessageStep 1 ''user'' ''hi''"] r a g m
  show ?thesis
    by simp
qed

section \<open>Status transitions and results\<close>

lemma status_le_refl [simp]: "status_le st st"
  by (cases st) auto

lemma row_le_refl [simp]: "row_le r r"
  by (simp add: row_le_def)

lemma status_le_trans: "status_le a b \<Longrightarrow> status_le b c \<Longrightarrow> status_le a c"
  by (cases a; cases b; cases c) auto

lemma row_le_trans: "row_le a b \<Longrightarrow> row_le b c \<Longrightarrow> row_le a c"
  by (auto simp: row_le_def terminal_def intro: status_le_trans)

lemma row_le_step:
  "row_le row
     ((\<lambda>row. if status row \<noteq> RUNNING then row
             else (case err of None \<Rightarrow> row\<lparr>status := SUCCESS, exec_output := Some v\<rparr>
                   | Some e \<Rightarrow> row\<lparr>status := ERROR, error_detail := Some e\<rparr>))
      (if status row = PENDING then row\<lparr>status := RUNNING\<rparr> else row))"
  by (cases "status row"; cases err) (auto simp: row_le_def terminal_def)

lemma execute_row_le:
  assumes "map_of (executions s) wid = Some row"
  shows "\<exists>row'. map_of (executions (snd (execute E wid' s))) wid = Some row' \<and> row_le row row'"
proof (cases E wid' s rule: execute_cases)
  case idle
  with assms show ?thesis by simp
next
  case (unknown name)
  with assms show ?thesis by simp
next
  case (ran row0 f r s1)
  from run_workflow_frame [OF ran(4)]
  have ex: "executions s1 = executions (set_running wid' s)"
    by (simp add: log_event_def)
  have "map_of (executions (finalize wid' r s1)) wid
          = map_option (\<lambda>row. if wid = wid' then
               (\<lambda>row. if status row \<noteq> RUNNING then row
                  else (case snd r of None \<Rightarrow> row\<lparr>status := SUCCESS, exec_output := Some (fst r)\<rparr>
                        | Some e \<Rightarrow> row\<lparr>status := ERROR, error_detail := Some e\<rparr>))
               (if status row = PENDING then row\<lparr>status := RUNNING\<rparr> else row) else row)
             (map_of (executions s) wid)"
    unfolding finalize_def map_of_update_execution
    apply (simp add: update_execution_def ex)
    apply (simp add: set_running_def)
    apply (simp add: map_of_update_execution)
    apply (cases "map_of (executions s) wid")
     apply auto
    done
  with assms ran(5) show ?thesis
    using row_le_step [where row = row and err = "snd r" and v = "fst r"] by auto
qed


lemma recover_all_row_le:
  "map_of (executions s) wid = Some row \<Longrightarrow>
     \<exists>row'. map_of (executions (snd (recover_all E wids s))) wid = Some row' \<and> row_le row row'"
proof (induction wids arbitrary: s row)
  case Nil
  then show ?case by simp
next
  case (Cons w wids)
  obtain err s1 where ex: "execute E w s = (err, s1)"
    by force
  from execute_row_le [OF Cons.prems, of E w] ex
  obtain row1 where r1: "map_of (executions s1) wid = Some row1" "row_le row row1"
    by auto
  show ?case
  proof (cases err)
    case (Some e)
    with ex r1 show ?thesis by simp
  next
    case None
    from Cons.IH [OF r1(1)] obtain row' where
      "map_of (executions (snd (recover_all E wids s1))) wid = Some row'" "row_le row1 row'"
      by auto
    with None ex r1(2) show ?thesis
      by (auto intro: row_le_trans)
  qed
qed

lemma Start_existing:
  "map_of (registry E) name = Some f \<Longrightarrow> map_of (executions s) wid = Some row \<Longrightarrow>
     Start E name inp wid s = (Inr wid, s)"
  by (simp add: Start_def create_if_absent_def)

lemma Start_unknown:
  "map_of (registry E) name = None \<Longrightarrow> Start E name inp wid s = (Inl (UnknownWorkflow name), s)"
  by (simp add: Start_def)

lemma Start_fresh:
  "map_of (registry E) name = Some f \<Longrightarrow> map_of (executions s) wid = None \<Longrightarrow>
     snd (Start E name inp wid s)
       = snd (execute E wid
                (s\<lparr>executions := executions s @
                      [(wid, \<lparr>workflow_name = name, exec_input = inp, status = PENDING,
                              exec_output = None, error_detail = None\<rparr>)]\<rparr>))"
  by (simp add: Start_def create_if_absent_def split: prod.splits option.splits)

lemma Start_row_le:
  assumes "map_of (executions s) wid = Some row"
  shows "\<exists>row'. map_of (executions (snd (Start E name inp wid' s))) wid = Some row' \<and> row_le row row'"
proof (cases "map_of (registry E) name")
  case None
  with assms show ?thesis by (simp add: Start_unknown)
next
  case (Some f)
  show ?thesis
  proof (cases "map_of (executions s) wid'")
    case (Some row0)
    with \<open>map_of (registry E) name = Some f\<close> assms show ?thesis
      by (simp add: Start_existing)
  next
    case None
    let ?s0 = "s\<lparr>executions := executions s @
                      [(wid', \<lparr>workflow_name = name, exec_input = inp, status = PENDING,
                              exec_output = None, error_detail = None\<rparr>)]\<rparr>"
    have "map_of (executions ?s0) wid = Some row"
      using assms by (simp add: map_add_Some_iff)
    from execute_row_le [OF this, of E wid'] Start_fresh [OF Some None, of inp]
    show ?thesis by simp
  qed
qed

lemma apply_op_row_le:
  "map_of (executions s) wid = Some row \<Longrightarrow>
     \<exists>row'. map_of (executions (apply_op E op s)) wid = Some row' \<and> row_le row row'"
  by (cases op) (auto simp: Recover_def dest: Start_row_le recover_all_row_le)

lemma apply_ops_row_le:
  "map_of (executions s) wid = Some row \<Longrightarrow>
     \<exists>row'. map_of (executions (apply_ops E ops s)) wid = Some row' \<and> row_le row row'"
proof (induction ops arbitrary: s row)
  case Nil
  then show ?case by simp
next
  case (Cons op ops)
  from apply_op_row_le [OF Cons.prems, of E op]
  obtain row1 where r1: "map_of (executions (apply_op E op s)) wid = Some row1" "row_le row row1"
    by auto
  from Cons.IH [OF r1(1)] r1(2) show ?case
    by (auto intro: row_le_trans)
qed

lemma GetResult_stable:
  assumes "map_of (executions s) wid = Some row" "map_of (executions s') wid = Some row'"
    and "row_le row row'" and "GetResult wid s = Some res"
  shows "GetResult wid s' = Some res"
proof -
  from assms(1,4) have "terminal (status row)"
    by (cases "status row") (auto simp: GetResult_def terminal_def)
  with assms(3) have "row' = row"
    by (simp add: row_le_def)
  with assms show ?thesis
    by (simp add: GetResult_def)
qed

text \<open>
  Claim C7. Whatever sequence of \<open>Start\<close> calls and recoveries the engine performs, an
  execution row stays in the table, its status only moves forward along
  \<open>PENDING \<rightarrow> RUNNING \<rightarrow> SUCCESS | ERROR\<close>, a row that is terminal is never written again
  (so at most one terminal transition is recorded), and a result that \<open>GetResult\<close> has
  given once is the result it gives in every later state.
\<close>

theorem status_monotone:
  assumes "map_of (executions s) wid = Some row"
  shows "\<exists>row'. map_of (executions (apply_ops E ops s)) wid = Some row' \<and>
                status_le (status row) (status row') \<and>
                (terminal (status row) \<longrightarrow> row' = row) \<and>
                (\<forall>res. GetResult wid s = Some res \<longrightarrow>
                       GetResult wid (apply_ops E ops s) = Some res)"
proof -
  from apply_ops_row_le [OF assms, of E ops]
  obtain row' where r: "map_of (executions (apply_ops E ops s)) wid = Some row'" "row_le row row'"
    by auto
  from GetResult_stable [OF assms r] r show ?thesis
    by (auto simp: row_le_def)
qed

section \<open>Starting an execution twice\<close>

lemma execute_keys:
  "map fst (executions (snd (execute E wid s))) = map fst (executions s)"
proof (cases E wid s rule: execute_cases)
  case idle
  then show ?thesis by simp
next
  case (unknown name)
  then show ?thesis by simp
next
  case (ran row f r s1)
  from run_workflow_frame [OF ran(4)] ran(5) show ?thesis
    by (simp add: finalize_def log_event_def set_running_def)
qed

lemma execute_invocations:
  "invocations wid (events (snd (execute E wid s))) \<le> Suc (invocations wid (events s))"
proof (cases E wid s rule: execute_cases)
  case idle
  then show ?thesis by simp
next
  case (unknown name)
  then show ?thesis by simp
next
  case (ran row f r s1)
  from run_workflow_frame [OF ran(4), of wid] ran(5) show ?thesis
    by (simp add: finalize_def log_event_def set_running_def invocations_def)
qed

lemma execute_registered:
  "map_of (registry E) name = Some f \<Longrightarrow> map_of (executions s) wid = Some row \<Longrightarrow>
     workflow_name row = name \<Longrightarrow> fst (execute E wid s) = None"
  by (simp add: execute_def split: prod.splits)

text \<open>
  Claim C6. For a registered workflow and a table with one row per id, two calls of
  \<open>Start\<close> with the same id and input both return the handle of that id, the second
  call changes nothing, the workflow function of that id is invoked at most once over
  both calls, the table has exactly one row for the id, and when the row existed before
  the first call, terminal or not, that call too changes nothing, so the stored result
  is what the handle gives.
\<close>

theorem idempotent_Start:
  assumes known: "map_of (registry E) name \<noteq> None"
      and dist: "distinct (map fst (executions s))"
      and first: "Start E name inp wid s = (h1, s1)"
      and second: "Start E name inp wid s1 = (h2, s2)"
  shows "h1 = Inr wid \<and> h2 = Inr wid \<and> s2 = s1 \<and>
         invocations wid (events s2) \<le> Suc (invocations wid (events s)) \<and>
         distinct (map fst (executions s2)) \<and>
         length (filter (\<lambda>kv. fst kv = wid) (executions s2)) = 1 \<and>
         (\<forall>row. map_of (executions s) wid = Some row \<longrightarrow> s1 = s \<and> GetResult wid s1 = GetResult wid s)"
proof -
  from known obtain f where reg: "map_of (registry E) name = Some f"
    by auto
  have one': "distinct (map fst xs) \<Longrightarrow> wid \<in> set (map fst xs) \<Longrightarrow>
               length (filter (\<lambda>kv. fst kv = wid) xs) = 1" for xs :: "(uuid \<times> WorkflowExecution) list"
    by (induction xs) (auto simp: filter_empty_conv image_iff)
  have one: "distinct (map fst xs) \<Longrightarrow> map_of xs wid \<noteq> None \<Longrightarrow>
               length (filter (\<lambda>kv. fst kv = wid) xs) = 1" for xs :: "(uuid \<times> WorkflowExecution) list"
    using one' [of xs] by (simp add: map_of_eq_None_iff)
  have s1: "h1 = Inr wid \<and> map_of (executions s1) wid \<noteq> None \<and>
            distinct (map fst (executions s1)) \<and>
            invocations wid (events s1) \<le> Suc (invocations wid (events s)) \<and>
            (\<forall>row. map_of (executions s) wid = Some row \<longrightarrow> s1 = s)"
  proof (cases "map_of (executions s) wid")
    case (Some row)
    with reg first dist show ?thesis
      by (simp add: Start_existing)
  next
    case None
    let ?s0 = "s\<lparr>executions := executions s @
                      [(wid, \<lparr>workflow_name = name, exec_input = inp, status = PENDING,
                              exec_output = None, error_detail = None\<rparr>)]\<rparr>"
    have row0: "map_of (executions ?s0) wid
                  = Some \<lparr>workflow_name = name, exec_input = inp, status = PENDING,
                          exec_output = None, error_detail = None\<rparr>"
      using None by (simp add: map_add_Some_iff)
    have d0: "distinct (map fst (executions ?s0))"
      using None dist by (auto simp: map_of_eq_None_iff)
    have "fst (execute E wid ?s0) = None"
      using reg row0 by (rule execute_registered) simp
    then have h: "h1 = Inr wid"
      using reg None first
      by (auto simp: Start_def create_if_absent_def split: prod.splits option.splits)
    have s1eq: "s1 = snd (execute E wid ?s0)"
      using Start_fresh [OF reg None, of inp] first by simp
    from execute_row_le [OF row0, of E wid] execute_keys [of E wid ?s0]
         execute_invocations [of wid E ?s0] d0 h None
    show ?thesis
      unfolding s1eq by auto
  qed
  then obtain row1 where r1: "map_of (executions s1) wid = Some row1"
    by auto
  from Start_existing [OF reg r1, of inp] second have "h2 = Inr wid" "s2 = s1"
    by auto
  moreover have "length (filter (\<lambda>kv. fst kv = wid) (executions s1)) = 1"
    using s1 r1 by (intro one) auto
  ultimately show ?thesis
    using s1 by auto
qed


theorem status_monotone_witness:
  "map_of (executions crashed1) 101 \<noteq> None \<and>
   GetResult 101 (apply_ops (dbosCtx env0 pol0) [OpRecover] crashed1)
     = Some (Inr (VSendMessageOutput
                    \<lparr>UserMessage = user103, AssistantMessage = assistant107\<rparr>)) \<and>
   GetResult 101
     (apply_ops (dbosCtx env0 pol0)
        [OpStart ''SendMessageWorkflow''
           (VSendMessageInput \<lparr>in_ConversationID = 1, in_Content = ''hi''\<rparr>) 101, OpRecover]
        (apply_ops (dbosCtx env0 pol0) [OpRecover] crashed1))
     = Some (Inr (VSendMessageOutput
                    \<lparr>UserMessage = user103, AssistantMessage = assistant107\<rparr>))"
proof -
  let ?E = "dbosCtx env0 pol0"
  let ?ops = "[OpStart ''SendMessageWorkflow''
                 (VSendMessageInput \<lparr>in_ConversationID = 1, in_Content = ''hi''\<rparr>) 101, OpRecover]"
  obtain row where r: "map_of (executions crashed1) 101 = Some row"
    by (simp add: crashed1_def)
  have g: "GetResult 101 (apply_ops ?E [OpRecover] crashed1)
             = Some (Inr (VSendMessageOutput
                            \<lparr>UserMessage = user103, AssistantMessage = assistant107\<rparr>))"
    by code_simp
  from status_monotone [OF r, of ?E "[OpRecover]"]
  obtain row1 where r1: "map_of (executions (apply_ops ?E [OpRecover] crashed1)) 101 = Some row1"
    by blast
  from status_monotone [OF r1, of ?E ?ops] g r show ?thesis
    by auto
qed

theorem idempotent_Start_witness:
  "map_of (registry (dbosCtx env0 pol0)) ''SendMessageWorkflow'' \<noteq> None \<and>
   distinct (map fst (executions state0)) \<and>
   Start (dbosCtx env0 pol0) ''SendMessageWorkflow''
     (VSendMessageInput \<lparr>in_ConversationID = 1, in_Content = ''hi''\<rparr>) 7
     (snd (Start (dbosCtx env0 pol0) ''SendMessageWorkflow''
             (VSendMessageInput \<lparr>in_ConversationID = 1, in_Content = ''hi''\<rparr>) 7 state0))
     = (Inr 7, snd (Start (dbosCtx env0 pol0) ''SendMessageWorkflow''
                      (VSendMessageInput \<lparr>in_ConversationID = 1, in_Content = ''hi''\<rparr>) 7 state0)) \<and>
   invocations 7 (events (snd (Start (dbosCtx env0 pol0) ''SendMessageWorkflow''
     (VSendMessageInput \<lparr>in_ConversationID = 1, in_Content = ''hi''\<rparr>) 7
     (snd (Start (dbosCtx env0 pol0) ''SendMessageWorkflow''
             (VSendMessageInput \<lparr>in_ConversationID = 1, in_Content = ''hi''\<rparr>) 7 state0))))) \<le> 1"
proof -
  let ?E = "dbosCtx env0 pol0"
  let ?i = "VSendMessageInput \<lparr>in_ConversationID = 1, in_Content = ''hi''\<rparr>"
  let ?s1 = "snd (Start ?E ''SendMessageWorkflow'' ?i 7 state0)"
  have k: "map_of (registry ?E) ''SendMessageWorkflow'' \<noteq> None"
    by (simp add: dbosCtx_def chat_registry_def)
  have d: "distinct (map fst (executions state0))"
    by (simp add: state0_def)
  have z: "invocations 7 (events state0) = 0"
    by (simp add: state0_def invocations_def)
  have f: "Start ?E ''SendMessageWorkflow'' ?i 7 state0
             = (fst (Start ?E ''SendMessageWorkflow'' ?i 7 state0), ?s1)"
    by simp
  have g: "Start ?E ''SendMessageWorkflow'' ?i 7 ?s1
             = (fst (Start ?E ''SendMessageWorkflow'' ?i 7 ?s1),
                snd (Start ?E ''SendMessageWorkflow'' ?i 7 ?s1))"
    by simp
  from idempotent_Start [OF k d f g] k d z show ?thesis
    by (metis One_nat_def prod.collapse)
qed

section \<open>Retries\<close>

lemma delays_append: "delays (xs @ ys) = delays xs @ delays ys"
  by (induction xs rule: delays.induct) auto

lemma attempts_at_append:
  "attempts_at wid n (xs @ ys) = attempts_at wid n xs + attempts_at wid n ys"
  by (simp add: attempts_at_def)

lemma run_attempts_exhaust:
  "(\<forall>a. \<exists>err a'. body_runner E b a = (Inl err, a') \<and> transient (policy E b) err) \<Longrightarrow>
   k \<le> max_attempts (policy E b) \<Longrightarrow> run_attempts E wid n b k s = (r, j, s') \<Longrightarrow>
           j = max_attempts (policy E b) \<and>
           (\<exists>err. r = Inl err \<and> transient (policy E b) err) \<and>
           attempts_at wid n (events s')
             = attempts_at wid n (events s) + Suc (max_attempts (policy E b) - k) \<and>
           delays (events s')
             = delays (events s) @
               map (\<lambda>i. base_interval (policy E b) * backoff_rate (policy E b) ^ (i - 1))
                 [k..<max_attempts (policy E b)]"
proof (induction E wid n b k s arbitrary: r j s' rule: run_attempts.induct)
  case (1 E wid n b attempt s)
  from "1.prems"(1) obtain err a where
    br: "body_runner E b (app s) = (Inl err, a)" and tr: "transient (policy E b) err"
    by blast
  show ?case
  proof (cases "attempt < max_attempts (policy E b)")
    case False
    with "1.prems"(2) have eq: "attempt = max_attempts (policy E b)"
      by simp
    from br False "1.prems"(3) have "r = Inl err" "j = attempt"
      "s' = (log_event (BodyAttempt wid n attempt) s)\<lparr>app := a\<rparr>"
      by (auto simp: run_attempts.simps [of E wid n b attempt s])
    with eq tr show ?thesis
      by (simp add: log_event_def attempts_at_append delays_append) (simp add: attempts_at_def)
  next
    case True
    let ?s1 = "log_event
                 (Backoff (base_interval (policy E b) * backoff_rate (policy E b) ^ (attempt - 1)))
                 ((log_event (BodyAttempt wid n attempt) s)\<lparr>app := a\<rparr>)"
    from br tr True "1.prems"(3) have next_run: "run_attempts E wid n b (Suc attempt) ?s1 = (r, j, s')"
      by (simp add: run_attempts.simps [of E wid n b attempt s])
    have le: "Suc attempt \<le> max_attempts (policy E b)"
      using True by simp
    have ih: "j = max_attempts (policy E b) \<and>
           (\<exists>err. r = Inl err \<and> transient (policy E b) err) \<and>
           attempts_at wid n (events s')
             = attempts_at wid n (events ?s1) + Suc (max_attempts (policy E b) - Suc attempt) \<and>
           delays (events s')
             = delays (events ?s1) @
               map (\<lambda>i. base_interval (policy E b) * backoff_rate (policy E b) ^ (i - 1))
                 [Suc attempt..<max_attempts (policy E b)]"
      using "1.IH" [OF br [symmetric] refl conjI [OF tr True] "1.prems"(1) le next_run]
      by simp
    have ev: "attempts_at wid n (events ?s1) = Suc (attempts_at wid n (events s))"
      "delays (events ?s1) = delays (events s) @
          [base_interval (policy E b) * backoff_rate (policy E b) ^ (attempt - 1)]"
      by (simp_all add: log_event_def attempts_at_def delays_append)
    from ih ev True show ?thesis
      by (simp add: upt_conv_Cons)
  qed
qed


lemma run_attempts_permanent:
  "body_runner E b (app s) = (Inl err, a) \<Longrightarrow> \<not> transient (policy E b) err \<Longrightarrow>
     run_attempts E wid n b k s = (Inl err, k, (log_event (BodyAttempt wid n k) s)\<lparr>app := a\<rparr>)"
  by (simp add: run_attempts.simps [of E wid n b k s])

lemma RunStep_error:
  assumes "recorded_output s wid n = None"
    and "run_attempts E wid n b 1 (log_event (StepCall wid n b) s) = (Inl err, j, s1)"
  shows "RunStep E wid n b s
           = (Inl err, upsert_step wid n
                         \<lparr>step_status = STEP_ERROR, step_output = None,
                          step_error = Some err, attempt_count = j\<rparr> s1)"
  using assms by (simp add: RunStep_def Let_def)

lemma finalize_error:
  assumes "map_of (executions s) wid = Some row" "status row = RUNNING"
  shows "map_of (executions (finalize wid (v, Some err) s)) wid
           = Some (row\<lparr>status := ERROR, error_detail := Some err\<rparr>) \<and>
         GetResult wid (finalize wid (v, Some err) s) = Some (Inl err)"
  using assms by (simp add: finalize_def map_of_update_execution GetResult_def)

text \<open>
  Claim C4. Take a step at position \<open>n\<close> that is not recorded, under a policy with at
  least one attempt, in a running execution whose workflow function returns the error of
  that step call (as every \<open>if err != nil { return ..., err }\<close> of the source does). If
  the body fails transiently whenever it is run, it is attempted exactly \<open>max_attempts\<close>
  times, the delays between attempts are \<open>base_interval * backoff_rate ^ (i - 1)\<close> for
  \<open>i = 1, ..., max_attempts - 1\<close>, the step is recorded as \<open>ERROR\<close> with that error and
  that attempt count, and recording the function's result makes the execution \<open>ERROR\<close>
  with the same error, which is what \<open>GetResult\<close> gives. If the body fails permanently,
  it is attempted once, with no delay, and the step and the execution end the same way.
\<close>

theorem retry_bound:
  assumes unrec: "recorded_output s wid n = None"
      and pos: "0 < max_attempts (policy E b)"
      and row: "map_of (executions s) wid = Some row"
      and running: "status row = RUNNING"
      and propagate: "\<forall>err. \<exists>v. k (Inl err) = Return (v, Some err)"
      and run: "run_workflow (RunAsStep b k) E wid n s = (res, s')"
  shows "((\<forall>a. \<exists>err a'. body_runner E b a = (Inl err, a') \<and> transient (policy E b) err) \<longrightarrow>
            attempts_at wid n (events s')
              = attempts_at wid n (events s) + max_attempts (policy E b) \<and>
            delays (events s')
              = delays (events s) @
                map (\<lambda>i. base_interval (policy E b) * backoff_rate (policy E b) ^ (i - 1))
                  [1..<max_attempts (policy E b)] \<and>
            (\<exists>err. snd res = Some err \<and>
               map_of (step_records s') (wid, n)
                 = Some \<lparr>step_status = STEP_ERROR, step_output = None, step_error = Some err,
                         attempt_count = max_attempts (policy E b)\<rparr> \<and>
               map_of (executions (finalize wid res s')) wid
                 = Some (row\<lparr>status := ERROR, error_detail := Some err\<rparr>) \<and>
               GetResult wid (finalize wid res s') = Some (Inl err))) \<and>
         (\<forall>err a. body_runner E b (app s) = (Inl err, a) \<and> \<not> transient (policy E b) err \<longrightarrow>
            attempts_at wid n (events s') = Suc (attempts_at wid n (events s)) \<and>
            delays (events s') = delays (events s) \<and>
            snd res = Some err \<and>
            map_of (step_records s') (wid, n)
              = Some \<lparr>step_status = STEP_ERROR, step_output = None, step_error = Some err,
                      attempt_count = 1\<rparr> \<and>
            map_of (executions (finalize wid res s')) wid
              = Some (row\<lparr>status := ERROR, error_detail := Some err\<rparr>) \<and>
            GetResult wid (finalize wid res s') = Some (Inl err))"
proof (intro conjI impI allI)
  let ?s0 = "log_event (StepCall wid n b) s"
  have base: "attempts_at wid n (events ?s0) = attempts_at wid n (events s)"
    "delays (events ?s0) = delays (events s)"
    by (simp_all add: log_event_def attempts_at_def delays_append)
  {
    fix err j s1
    assume ra: "run_attempts E wid n b 1 ?s0 = (Inl err, j, s1)"
    let ?rec = "\<lparr>step_status = STEP_ERROR, step_output = None, step_error = Some err,
                 attempt_count = j\<rparr>"
    from RunStep_error [OF unrec ra] have rs: "RunStep E wid n b s = (Inl err, upsert_step wid n ?rec s1)" .
    from propagate obtain v where kv: "k (Inl err) = Return (v, Some err)"
      by blast
    from run rs kv have res: "res = (v, Some err)" "s' = upsert_step wid n ?rec s1"
      by auto
    from run_attempts_frame [OF ra] have "executions s1 = executions s"
      by (simp add: log_event_def)
    with row res have "map_of (executions s') wid = Some row"
      by (simp add: upsert_step_def)
    from finalize_error [OF this running, of v err] res
    have "snd res = Some err \<and> events s' = events s1 \<and>
          map_of (step_records s') (wid, n) = Some ?rec \<and>
          map_of (executions (finalize wid res s')) wid
            = Some (row\<lparr>status := ERROR, error_detail := Some err\<rparr>) \<and>
          GetResult wid (finalize wid res s') = Some (Inl err)"
      by (simp add: upsert_step_def map_of_upsert)
  }
  note step = this
  {
    assume always: "\<forall>a. \<exists>err a'. body_runner E b a = (Inl err, a') \<and> transient (policy E b) err"
    obtain r j s1 where ra: "run_attempts E wid n b 1 ?s0 = (r, j, s1)"
      by (metis prod_cases3)
    from pos have "1 \<le> max_attempts (policy E b)"
      by simp
    from run_attempts_exhaust [OF always this ra] obtain err where
      ex: "j = max_attempts (policy E b)" "r = Inl err"
          "attempts_at wid n (events s1)
             = attempts_at wid n (events ?s0) + Suc (max_attempts (policy E b) - 1)"
          "delays (events s1)
             = delays (events ?s0) @
               map (\<lambda>i. base_interval (policy E b) * backoff_rate (policy E b) ^ (i - 1))
                 [1..<max_attempts (policy E b)]"
      by auto
    from step [of err j s1] ra ex(2) have st: "snd res = Some err \<and> events s' = events s1 \<and>
          map_of (step_records s') (wid, n)
            = Some \<lparr>step_status = STEP_ERROR, step_output = None, step_error = Some err,
                    attempt_count = j\<rparr> \<and>
          map_of (executions (finalize wid res s')) wid
            = Some (row\<lparr>status := ERROR, error_detail := Some err\<rparr>) \<and>
          GetResult wid (finalize wid res s') = Some (Inl err)"
      by simp
    from st ex base pos
    show "attempts_at wid n (events s')
              = attempts_at wid n (events s) + max_attempts (policy E b)"
      by simp
    from st ex base
    show "delays (events s')
              = delays (events s) @
                map (\<lambda>i. base_interval (policy E b) * backoff_rate (policy E b) ^ (i - 1))
                  [1..<max_attempts (policy E b)]"
      by simp
    from st ex(1)
    show "\<exists>err. snd res = Some err \<and>
               map_of (step_records s') (wid, n)
                 = Some \<lparr>step_status = STEP_ERROR, step_output = None, step_error = Some err,
                         attempt_count = max_attempts (policy E b)\<rparr> \<and>
               map_of (executions (finalize wid res s')) wid
                 = Some (row\<lparr>status := ERROR, error_detail := Some err\<rparr>) \<and>
               GetResult wid (finalize wid res s') = Some (Inl err)"
      by auto
  }
  {
    fix err a
    assume perm: "body_runner E b (app s) = (Inl err, a) \<and> \<not> transient (policy E b) err"
    then have "body_runner E b (app ?s0) = (Inl err, a)"
      by (simp add: log_event_def)
    from run_attempts_permanent [OF this, of wid n 1] perm
    have ra: "run_attempts E wid n b 1 ?s0
                = (Inl err, 1, (log_event (BodyAttempt wid n 1) ?s0)\<lparr>app := a\<rparr>)"
      by simp
    from step [OF ra]
    have st: "snd res = Some err \<and>
          events s' = events ((log_event (BodyAttempt wid n 1) ?s0)\<lparr>app := a\<rparr>) \<and>
          map_of (step_records s') (wid, n)
            = Some \<lparr>step_status = STEP_ERROR, step_output = None, step_error = Some err,
                    attempt_count = 1\<rparr> \<and>
          map_of (executions (finalize wid res s')) wid
            = Some (row\<lparr>status := ERROR, error_detail := Some err\<rparr>) \<and>
          GetResult wid (finalize wid res s') = Some (Inl err)" .
    then show "attempts_at wid n (events s') = Suc (attempts_at wid n (events s))"
      by (simp add: log_event_def attempts_at_def)
    from st show "delays (events s') = delays (events s)"
      by (simp add: log_event_def delays_append)
    from st show "snd res = Some err" by simp
    from st show "map_of (step_records s') (wid, n)
              = Some \<lparr>step_status = STEP_ERROR, step_output = None, step_error = Some err,
                      attempt_count = 1\<rparr>" by simp
    from st show "map_of (executions (finalize wid res s')) wid
              = Some (row\<lparr>status := ERROR, error_detail := Some err\<rparr>)" by simp
    from st show "GetResult wid (finalize wid res s') = Some (Inl err)" by simp
  }
qed

theorem retry_bound_witness:
  "recorded_output crashed1 101 3 = None \<and>
   0 < max_attempts (policy (dbosCtx env_down pol0) (ChatStep NilSlice ''hi'')) \<and>
   (\<forall>a. \<exists>err a'. body_runner (dbosCtx env_down pol0) (ChatStep NilSlice ''hi'') a = (Inl err, a') \<and>
                  transient (policy (dbosCtx env_down pol0) (ChatStep NilSlice ''hi'')) err) \<and>
   attempts_at 101 3
     (events (snd (run_workflow (RunAsStep (ChatStep NilSlice ''hi'') tail3)
                     (dbosCtx env_down pol0) 101 3 crashed1))) = 3 \<and>
   delays
     (events (snd (run_workflow (RunAsStep (ChatStep NilSlice ''hi'') tail3)
                     (dbosCtx env_down pol0) 101 3 crashed1))) = [1, 2] \<and>
   attempts_at 101 3
     (events (snd (run_workflow (RunAsStep (ChatStep NilSlice ''hi'') tail3)
                     (dbosCtx env_down pol_never) 101 3 crashed1))) = 1 \<and>
   delays
     (events (snd (run_workflow (RunAsStep (ChatStep NilSlice ''hi'') tail3)
                     (dbosCtx env_down pol_never) 101 3 crashed1))) = [] \<and>
   GetResult 101 (snd (Recover (dbosCtx env_down pol0) crashed1))
     = Some (Inl (GoError ''failed to send request to vLLM: connection refused'')) \<and>
   attempts_at 101 3 (events (snd (Recover (dbosCtx env_down pol0) crashed1))) = 3 \<and>
   run_workflow (SendMessageWorkflow \<lparr>in_ConversationID = 1, in_Content = ''hi''\<rparr>)
       (dbosCtx env_down pol0) 101 1 crashed1
     = run_workflow (RunAsStep (ChatStep NilSlice ''hi'') tail3) (dbosCtx env_down pol0) 101 3
         (log_event (StepCall 101 2 (SaveMessageStep 1 ''user'' ''hi''))
            (log_event (StepCall 101 1 (GetMessagesStep 1)) crashed1))"
proof -
  let ?b = "ChatStep NilSlice ''hi''"
  let ?E = "dbosCtx env_down pol0"
  let ?P = "dbosCtx env_down pol_never"
  have u: "recorded_output crashed1 101 3 = None"
    by code_simp
  have p: "0 < max_attempts (policy ?E ?b)" "0 < max_attempts (policy ?P ?b)"
    by (simp_all add: dbosCtx_def pol0_def pol_never_def)
  have r: "map_of (executions crashed1) 101
             = Some \<lparr>workflow_name = ''SendMessageWorkflow'',
                     exec_input = VSendMessageInput \<lparr>in_ConversationID = 1, in_Content = ''hi''\<rparr>,
                     status = RUNNING, exec_output = None, error_detail = None\<rparr>"
    by (simp add: crashed1_def)
  have k: "\<forall>err. \<exists>v. tail3 (Inl err) = Return (v, Some err)"
    by (simp add: tail3_def)
  have always: "\<forall>a. \<exists>err a'. body_runner ?E ?b a = (Inl err, a') \<and> transient (policy ?E ?b) err"
    by (simp add: dbosCtx_def run_body_def Chat_def env_down_def env0_def pol0_def Let_def)
  have perm: "body_runner ?P ?b (app crashed1)
                = (Inl (GoError ''failed to send request to vLLM: connection refused''),
                   advance (ChatCompletion
                      \<lparr>Model = ''meta-llama/Meta-Llama-3.1-8B-Instruct'',
                        Messages = [\<lparr>vm_Role = ''user'', vm_Content = ''hi''\<rparr>],
                        MaxTokens = 4096\<rparr>) (app crashed1)) \<and>
              \<not> transient (policy ?P ?b) (GoError ''failed to send request to vLLM: connection refused'')"
    by (simp add: dbosCtx_def run_body_def Chat_def env_down_def env0_def pol_never_def Let_def)
  have z: "attempts_at 101 3 (events crashed1) = 0" "delays (events crashed1) = []"
    by code_simp+
  have g: "GetResult 101 (snd (Recover ?E crashed1))
     = Some (Inl (GoError ''failed to send request to vLLM: connection refused''))"
    by code_simp
  have n: "attempts_at 101 3 (events (snd (Recover ?E crashed1))) = 3"
    by code_simp
  have pm: "max_attempts (policy ?E ?b) = 3" "base_interval (policy ?E ?b) = 1"
    "backoff_rate (policy ?E ?b) = 2"
    by (simp_all add: dbosCtx_def pol0_def)
  have l: "map (\<lambda>i. 1 * 2 ^ (i - 1)) [1..<3] = [1, 2::nat]"
    by (simp add: upt_rec)
  from retry_bound [OF u p(1) r _ k surjective_pairing] always
  have a1: "attempts_at 101 3
     (events (snd (run_workflow (RunAsStep ?b tail3) ?E 101 3 crashed1))) = 3"
    and a2: "delays
     (events (snd (run_workflow (RunAsStep ?b tail3) ?E 101 3 crashed1))) = [1, 2]"
    using z pm l by auto
  from retry_bound [OF u p(2) r _ k surjective_pairing] perm
  have b1: "attempts_at 101 3
     (events (snd (run_workflow (RunAsStep ?b tail3) ?P 101 3 crashed1))) = 1"
    and b2: "delays
     (events (snd (run_workflow (RunAsStep ?b tail3) ?P 101 3 crashed1))) = []"
    using z by auto
  have t: "run_workflow (SendMessageWorkflow \<lparr>in_ConversationID = 1, in_Content = ''hi''\<rparr>)
       ?E 101 1 crashed1
     = run_workflow (RunAsStep ?b tail3) ?E 101 3
         (log_event (StepCall 101 2 (SaveMessageStep 1 ''user'' ''hi''))
            (log_event (StepCall 101 1 (GetMessagesStep 1)) crashed1))"
    by code_simp
  from u p(1) always a1 a2 b1 b2 g n t show ?thesis
    by blast
qed

section \<open>Identifiers drawn inside step bodies\<close>

text \<open>
  Claim C3 says that a retry of a step whose outcome was not recorded produces the same
  row id again. It does not: after a crash between the insert and the record, the
  second step runs again, draws another id, and the table holds the user message twice.
\<close>

theorem retried_insert_counterexample:
  "recorded_output lost2 101 2 = None \<and>
   messages (app lost2) = [user103] \<and>
   fst (saveMessage env0 1 ''user'' ''hi'' (app lost2)) = Inr user106 \<and>
   fst (RunStep (dbosCtx env0 pol0) 101 2 (SaveMessageStep 1 ''user'' ''hi'') lost2)
     = Inr (VMessage user106) \<and>
   messages (app (snd (RunStep (dbosCtx env0 pol0) 101 2 (SaveMessageStep 1 ''user'' ''hi'') lost2)))
     = [user103, user106] \<and>
   ID user106 \<noteq> ID user103"
  by code_simp

lemma saveMessage_appends:
  assumes "saveMessage e c role content w = (Inr m, w')"
  shows "ID m = uuid_source e (tick w) \<and> ConversationID m = c \<and> Role m = role \<and>
         Content m = content \<and> ID m \<notin> set (map ID (messages w)) \<and>
         messages w' = messages w @ [m] \<and> conversations w' = conversations w"
  using assms
  by (auto simp: saveMessage_def uuid_New_def time_Now_def insert_message_def advance_def Let_def
           split: option.splits if_splits)

text \<open>
  Claim C3, amended. The row id of \<open>saveMessage\<close> and of the body of
  \<open>CreateConversationWorkflow\<close> is drawn from \<open>uuid.New()\<close> inside the body: it is the
  value of the random source at that draw, and neither the workflow id nor the step
  position is an input of the body. When a body is run a second time and both inserts
  succeed, the two ids differ and the table holds both rows.
\<close>

theorem retried_insert_fresh_id:
  "(run_body e (SaveMessageStep c role content) w = (Inr v1, w1) \<and>
    run_body e (SaveMessageStep c role content) w1 = (Inr v2, w2) \<longrightarrow>
      (\<exists>m1 m2. v1 = VMessage m1 \<and> v2 = VMessage m2 \<and>
         ID m1 = uuid_source e (tick w) \<and> ID m2 = uuid_source e (tick w1) \<and>
         ID m1 \<noteq> ID m2 \<and> messages w2 = messages w @ [m1, m2])) \<and>
   (run_body e CreateConversationStep w = (Inr v1, w1) \<and>
    run_body e CreateConversationStep w1 = (Inr v2, w2) \<longrightarrow>
      (\<exists>c1 c2. v1 = VConversation c1 \<and> v2 = VConversation c2 \<and>
         conv_ID c1 = uuid_source e (tick w) \<and> conv_ID c2 = uuid_source e (tick w1) \<and>
         conv_ID c1 \<noteq> conv_ID c2 \<and> conversations w2 = conversations w @ [c1, c2]))"
proof (intro conjI impI)
  assume a: "run_body e (SaveMessageStep c role content) w = (Inr v1, w1) \<and>
             run_body e (SaveMessageStep c role content) w1 = (Inr v2, w2)"
  then obtain m1 m2 where
    s1: "saveMessage e c role content w = (Inr m1, w1)" "v1 = VMessage m1" and
    s2: "saveMessage e c role content w1 = (Inr m2, w2)" "v2 = VMessage m2"
    by (auto simp: run_body_def split: prod.splits sum.splits)
  from saveMessage_appends [OF s1(1)] saveMessage_appends [OF s2(1)] s1(2) s2(2)
  show "\<exists>m1 m2. v1 = VMessage m1 \<and> v2 = VMessage m2 \<and>
         ID m1 = uuid_source e (tick w) \<and> ID m2 = uuid_source e (tick w1) \<and>
         ID m1 \<noteq> ID m2 \<and> messages w2 = messages w @ [m1, m2]"
    by auto
next
  assume a: "run_body e CreateConversationStep w = (Inr v1, w1) \<and>
             run_body e CreateConversationStep w1 = (Inr v2, w2)"
  then show "\<exists>c1 c2. v1 = VConversation c1 \<and> v2 = VConversation c2 \<and>
         conv_ID c1 = uuid_source e (tick w) \<and> conv_ID c2 = uuid_source e (tick w1) \<and>
         conv_ID c1 \<noteq> conv_ID c2 \<and> conversations w2 = conversations w @ [c1, c2]"
    by (auto simp: run_body_def uuid_New_def time_Now_def insert_conversation_def advance_def Let_def
             split: option.splits if_splits)
qed

theorem retried_insert_fresh_id_witness:
  "run_body env0 (SaveMessageStep 1 ''user'' ''hi'') (app lost2)
     = (Inr (VMessage user106), snd (run_body env0 (SaveMessageStep 1 ''user'' ''hi'') (app lost2))) \<and>
   fst (run_body env0 (SaveMessageStep 1 ''user'' ''hi'')
          (snd (run_body env0 (SaveMessageStep 1 ''user'' ''hi'') (app lost2))))
     = Inr (VMessage \<lparr>ID = 109, ConversationID = 1, Role = ''user'', Content = ''hi'', CreatedAt = 10\<rparr>) \<and>
   messages (snd (run_body env0 (SaveMessageStep 1 ''user'' ''hi'')
          (snd (run_body env0 (SaveMessageStep 1 ''user'' ''hi'') (app lost2)))))
     = messages (app lost2) @
       [user106, \<lparr>ID = 109, ConversationID = 1, Role = ''user'', Content = ''hi'', CreatedAt = 10\<rparr>]"
proof -
  let ?b = "SaveMessageStep 1 ''user'' ''hi''"
  let ?w1 = "snd (run_body env0 ?b (app lost2))"
  let ?w2 = "snd (run_body env0 ?b ?w1)"
  let ?m = "\<lparr>ID = 109, ConversationID = 1, Role = ''user'', Content = ''hi'', CreatedAt = 10\<rparr>"
  have a: "run_body env0 ?b (app lost2) = (Inr (VMessage user106), ?w1)"
    by code_simp
  have b: "run_body env0 ?b ?w1 = (Inr (VMessage ?m), ?w2)"
    by code_simp
  have d: "fst (run_body env0 ?b ?w1) = Inr (VMessage ?m)"
    by code_simp
  from retried_insert_fresh_id [of env0 1 "''user''" "''hi''" "app lost2" "VMessage user106" ?w1
         "VMessage ?m" ?w2] a b
  have "\<exists>m1 m2. VMessage user106 = VMessage m1 \<and> VMessage ?m = VMessage m2 \<and>
         ID m1 = uuid_source env0 (tick (app lost2)) \<and> ID m2 = uuid_source env0 (tick ?w1) \<and>
         ID m1 \<noteq> ID m2 \<and> messages ?w2 = messages (app lost2) @ [m1, m2]"
    by blast
  then have c: "messages ?w2 = messages (app lost2) @ [user106, ?m]"
    by auto
  from a c d show ?thesis
    by blast
qed

section \<open>The SendMessage handler: rejected requests\<close>

text \<open>
  Claim C8. \<open>SendMessage\<close> answers 400 when the path parameter is not a UUID, 400 when
  the body does not decode or its \<open>content\<close> is empty, and 404 when no conversation has
  the id. In the first two cases nothing at all changes; in the third the only call to
  the database is the existence query. In no case is a workflow started, a step run, or a
  row written to the tables of messages and conversations.
\<close>

theorem SendMessage_rejects:
  "(uuid_Parse e (param_id r) = None \<longrightarrow>
      SendMessage e pol r s
        = (Some \<lparr>code = 400, body = gin_H ''error'' ''Invalid conversation ID''\<rparr>, s)) \<and>
   (uuid_Parse e (param_id r) = Some cid \<and>
    ((\<exists>err. decoded_body r = Inl err) \<or> (\<exists>q. decoded_body r = Inr q \<and> req_Content q = [])) \<longrightarrow>
      SendMessage e pol r s
        = (Some \<lparr>code = 400, body = gin_H ''error'' ''Invalid request body''\<rparr>, s)) \<and>
   (uuid_Parse e (param_id r) = Some cid \<and> ShouldBindJSON r = Inr q \<and>
    cid \<notin> set (map conv_ID (conversations (app s))) \<longrightarrow>
      fst (SendMessage e pol r s)
        = Some \<lparr>code = 404, body = gin_H ''error'' ''Conversation not found''\<rparr> \<and>
      executions (snd (SendMessage e pol r s)) = executions s \<and>
      step_records (snd (SendMessage e pol r s)) = step_records s \<and>
      events (snd (SendMessage e pol r s)) = events s \<and>
      messages (app (snd (SendMessage e pol r s))) = messages (app s) \<and>
      conversations (app (snd (SendMessage e pol r s))) = conversations (app s) \<and>
      calls (app (snd (SendMessage e pol r s))) = calls (app s) @ [ExistsConversation cid])"
proof (intro conjI impI)
  assume "uuid_Parse e (param_id r) = None"
  then show "SendMessage e pol r s
        = (Some \<lparr>code = 400, body = gin_H ''error'' ''Invalid conversation ID''\<rparr>, s)"
    by (simp add: SendMessage_def)
next
  assume "uuid_Parse e (param_id r) = Some cid \<and>
    ((\<exists>err. decoded_body r = Inl err) \<or> (\<exists>q. decoded_body r = Inr q \<and> req_Content q = []))"
  then show "SendMessage e pol r s
        = (Some \<lparr>code = 400, body = gin_H ''error'' ''Invalid request body''\<rparr>, s)"
    by (auto simp: SendMessage_def ShouldBindJSON_def)
next
  assume a: "uuid_Parse e (param_id r) = Some cid \<and> ShouldBindJSON r = Inr q \<and>
    cid \<notin> set (map conv_ID (conversations (app s)))"
  then have ne: "fst (query_exists e cid (app s)) \<noteq> Inr True"
    and w: "snd (query_exists e cid (app s)) = advance (ExistsConversation cid) (app s)"
    by (auto simp: query_exists_def split: option.splits)
  from a ne w have "SendMessage e pol r s
      = (Some \<lparr>code = 404, body = gin_H ''error'' ''Conversation not found''\<rparr>,
         s\<lparr>app := advance (ExistsConversation cid) (app s)\<rparr>)"
    by (auto simp: SendMessage_def split: prod.splits)
  then show "fst (SendMessage e pol r s)
        = Some \<lparr>code = 404, body = gin_H ''error'' ''Conversation not found''\<rparr>"
    "executions (snd (SendMessage e pol r s)) = executions s"
    "step_records (snd (SendMessage e pol r s)) = step_records s"
    "events (snd (SendMessage e pol r s)) = events s"
    "messages (app (snd (SendMessage e pol r s))) = messages (app s)"
    "conversations (app (snd (SendMessage e pol r s))) = conversations (app s)"
    "calls (app (snd (SendMessage e pol r s))) = calls (app s) @ [ExistsConversation cid]"
    by (simp_all add: advance_def)
qed

theorem SendMessage_rejects_witness:
  "uuid_Parse env0 (param_id (request0\<lparr>param_id := ''not-a-uuid''\<rparr>)) = None \<and>
   SendMessage env0 pol0 (request0\<lparr>param_id := ''not-a-uuid''\<rparr>) state0
     = (Some \<lparr>code = 400, body = gin_H ''error'' ''Invalid conversation ID''\<rparr>, state0) \<and>
   SendMessage env0 pol0 (request0\<lparr>decoded_body := Inr \<lparr>req_Content = []\<rparr>\<rparr>) state0
     = (Some \<lparr>code = 400, body = gin_H ''error'' ''Invalid request body''\<rparr>, state0) \<and>
   fst (SendMessage env0 pol0 request0 (state0\<lparr>app := world0\<lparr>conversations := []\<rparr>\<rparr>))
     = Some \<lparr>code = 404, body = gin_H ''error'' ''Conversation not found''\<rparr> \<and>
   messages (app (snd (SendMessage env0 pol0 request0 (state0\<lparr>app := world0\<lparr>conversations := []\<rparr>\<rparr>))))
     = [] \<and>
   executions (snd (SendMessage env0 pol0 request0 (state0\<lparr>app := world0\<lparr>conversations := []\<rparr>\<rparr>)))
     = []"
proof -
  let ?s = "state0\<lparr>app := world0\<lparr>conversations := []\<rparr>\<rparr>"
  have a: "uuid_Parse env0 (param_id (request0\<lparr>param_id := ''not-a-uuid''\<rparr>)) = None"
    by (simp add: env0_def request0_def)
  have b: "uuid_Parse env0 (param_id (request0\<lparr>decoded_body := Inr \<lparr>req_Content = []\<rparr>\<rparr>)) = Some 1 \<and>
           ((\<exists>err. decoded_body (request0\<lparr>decoded_body := Inr \<lparr>req_Content = []\<rparr>\<rparr>) = Inl err) \<or>
            (\<exists>q. decoded_body (request0\<lparr>decoded_body := Inr \<lparr>req_Content = []\<rparr>\<rparr>) = Inr q \<and>
                 req_Content q = []))"
    by (simp add: env0_def request0_def)
  have c: "uuid_Parse env0 (param_id request0) = Some 1 \<and>
           ShouldBindJSON request0 = Inr \<lparr>req_Content = ''hi''\<rparr> \<and>
           1 \<notin> set (map conv_ID (conversations (app ?s)))"
    by (simp add: env0_def request0_def ShouldBindJSON_def state0_def world0_def)
  have m: "messages (app ?s) = []" "executions ?s = []"
    by (simp_all add: state0_def world0_def)
  from SendMessage_rejects [of env0 "request0\<lparr>param_id := ''not-a-uuid''\<rparr>" pol0 state0] a
  have r1: "SendMessage env0 pol0 (request0\<lparr>param_id := ''not-a-uuid''\<rparr>) state0
     = (Some \<lparr>code = 400, body = gin_H ''error'' ''Invalid conversation ID''\<rparr>, state0)"
    by blast
  from SendMessage_rejects [of env0 "request0\<lparr>decoded_body := Inr \<lparr>req_Content = []\<rparr>\<rparr>" pol0 state0 1] b
  have r2: "SendMessage env0 pol0 (request0\<lparr>decoded_body := Inr \<lparr>req_Content = []\<rparr>\<rparr>) state0
     = (Some \<lparr>code = 400, body = gin_H ''error'' ''Invalid request body''\<rparr>, state0)"
    by blast
  from SendMessage_rejects [of env0 request0 pol0 ?s 1 "\<lparr>req_Content = ''hi''\<rparr>"] c
  have r3: "fst (SendMessage env0 pol0 request0 ?s)
     = Some \<lparr>code = 404, body = gin_H ''error'' ''Conversation not found''\<rparr>"
    "messages (app (snd (SendMessage env0 pol0 request0 ?s))) = messages (app ?s)"
    "executions (snd (SendMessage env0 pol0 request0 ?s)) = executions ?s"
    by blast+
  from a r1 r2 r3 m show ?thesis
    by simp
qed

section \<open>SendMessageWorkflow\<close>

lemma step_calls_append [simp]: "step_calls (xs @ ys) = step_calls xs @ step_calls ys"
  by (simp add: step_calls_def)

lemma step_calls_internal: "list_all (engine_internal wid n) new \<Longrightarrow> step_calls new = []"
proof (induction new)
  case Nil
  then show ?case by (simp add: step_calls_def)
next
  case (Cons ev new)
  then show ?case by (cases ev) (auto simp: step_calls_def)
qed

lemma RunStep_step_calls:
  assumes "RunStep E wid n b s = (r, s')"
  shows "step_calls (events s') = step_calls (events s) @ [StepCall wid n b]"
proof -
  from RunStep_frame [OF assms] obtain new where
    "events s' = events s @ StepCall wid n b # new" "list_all (engine_internal wid n) new"
    by auto
  then show ?thesis
    using step_calls_internal [of wid n new]
    by (simp add: step_calls_def)
qed

lemma RunStep_records_success:
  assumes "RunStep E wid n b s = (Inr v, s')"
  shows "recorded_output s' wid n = Some v"
proof (cases "recorded_output s wid n")
  case (Some v')
  with assms show ?thesis
    by (auto simp: RunStep_hit)
next
  case None
  obtain r1 k s1 where ra: "run_attempts E wid n b 1 (log_event (StepCall wid n b) s) = (r1, k, s1)"
    by (metis prod_cases3)
  with assms None have "r1 = Inr v"
    and "s' = upsert_step wid n \<lparr>step_status = STEP_SUCCESS, step_output = Some v,
                                  step_error = None, attempt_count = k\<rparr> s1"
    by (auto simp: RunStep_def Let_def split: sum.splits)
  then show ?thesis
    by (simp add: upsert_step_def recorded_output_def map_of_upsert)
qed

lemma RunStep_other_position:
  assumes "RunStep E wid n b s = (r, s')" and "m \<noteq> n"
  shows "recorded_output s' wid m = recorded_output s wid m"
  using RunStep_frame [OF assms(1)] assms(2) by (simp add: recorded_output_def)

lemma as_messages_Inr: "as_messages r = Inr ms \<Longrightarrow> r = Inr (VMessages ms)"
  by (cases r rule: as_messages.cases) auto

lemma as_message_Inr: "as_message r = Inr m \<Longrightarrow> r = Inr (VMessage m)"
  by (cases r rule: as_message.cases) auto

lemma as_string_Inr: "as_string r = Inr x \<Longrightarrow> r = Inr (VString x)"
  by (cases r rule: as_string.cases) auto

lemma as_bool_Inr: "as_bool r = Inr x \<Longrightarrow> r = Inr (VBool x)"
  by (cases r rule: as_bool.cases) auto

lemma getMessages_history:
  assumes "getMessages e c w = (Inr ms, w')"
  shows "elems ms = sort_key CreatedAt (filter (\<lambda>m. ConversationID m = c) (messages w)) \<and>
         messages w' = messages w \<and> conversations w' = conversations w"
proof -
  have "elems (fold (\<lambda>msg acc. append_slice acc msg) rows acc) = elems acc @ rows"
    for rows :: "Message list" and acc
  proof (induction rows arbitrary: acc)
    case Nil
    then show ?case by simp
  next
    case (Cons x rows)
    then show ?case by (cases acc) auto
  qed
  with assms show ?thesis
    by (auto simp: getMessages_def query_messages_def advance_def split: option.splits)
qed

lemma Chat_request:
  assumes "Chat e msgs t w = (Inr reply, w')"
  shows "calls w' = calls w @
           [ChatCompletion
              \<lparr>Model = ''meta-llama/Meta-Llama-3.1-8B-Instruct'',
               Messages = map (\<lambda>m. \<lparr>vm_Role = Role m, vm_Content = Content m\<rparr>) (elems msgs)
                          @ [\<lparr>vm_Role = ''user'', vm_Content = t\<rparr>],
               MaxTokens = 4096\<rparr>] \<and>
         messages w' = messages w \<and> conversations w' = conversations w"
  using assms
  by (auto simp: Chat_def Let_def advance_def
           split: http_result.splits if_splits sum.splits list.splits)


text \<open>
  Claim C1. In every run of \<open>SendMessageWorkflow\<close>, from any state, the step calls it
  makes are an initial part of four calls in this order: get the messages of the
  conversation, save the user message, chat with the messages of the first step and the
  new content, save the reply of the third step as the assistant message. When the run
  returns no error it made all four, each is recorded as \<open>SUCCESS\<close>, and the output
  holds the message given by the second step and the message given by the fourth. The
  bodies do what their names say: a get that succeeds gives the messages of the
  conversation in ascending order of \<open>created_at\<close>, a save that succeeds gives back the
  row it appended to the table, and a chat that succeeds has sent the history followed
  by the new user message.
\<close>

theorem SendMessageWorkflow_four_steps:
  assumes run: "run_workflow (SendMessageWorkflow inp) E wid 1 s = ((out, err), s')"
  shows "(\<exists>m msgs ai.
            1 \<le> m \<and> m \<le> 4 \<and>
            step_calls (events s')
              = step_calls (events s) @
                take m [StepCall wid 1 (GetMessagesStep (in_ConversationID inp)),
                        StepCall wid 2 (SaveMessageStep (in_ConversationID inp) ''user''
                                          (in_Content inp)),
                        StepCall wid 3 (ChatStep msgs (in_Content inp)),
                        StepCall wid 4 (SaveMessageStep (in_ConversationID inp) ''assistant'' ai)] \<and>
            (err = None \<longrightarrow>
               m = 4 \<and>
               (\<exists>userMsg assistantMsg.
                  recorded_output s' wid 1 = Some (VMessages msgs) \<and>
                  recorded_output s' wid 2 = Some (VMessage userMsg) \<and>
                  recorded_output s' wid 3 = Some (VString ai) \<and>
                  recorded_output s' wid 4 = Some (VMessage assistantMsg) \<and>
                  out = VSendMessageOutput
                          \<lparr>UserMessage = userMsg, AssistantMessage = assistantMsg\<rparr>))) \<and>
         (\<forall>w v w'. run_body e (GetMessagesStep c) w = (Inr v, w') \<longrightarrow>
            (\<exists>ms. v = VMessages ms \<and> messages w' = messages w \<and>
                  elems ms = sort_key CreatedAt
                               (filter (\<lambda>m. ConversationID m = c) (messages w)))) \<and>
         (\<forall>role t w v w'. run_body e (SaveMessageStep c role t) w = (Inr v, w') \<longrightarrow>
            (\<exists>m. v = VMessage m \<and> messages w' = messages w @ [m] \<and>
                 ConversationID m = c \<and> Role m = role \<and> Content m = t)) \<and>
         (\<forall>ms t w v w'. run_body e (ChatStep ms t) w = (Inr v, w') \<longrightarrow>
            (\<exists>reply. v = VString reply \<and> messages w' = messages w \<and>
                 calls w' = calls w @
                   [ChatCompletion
                      \<lparr>Model = ''meta-llama/Meta-Llama-3.1-8B-Instruct'',
                       Messages = map (\<lambda>m. \<lparr>vm_Role = Role m, vm_Content = Content m\<rparr>) (elems ms)
                                  @ [\<lparr>vm_Role = ''user'', vm_Content = t\<rparr>],
                       MaxTokens = 4096\<rparr>]))"
proof (intro conjI)
  let ?c = "in_ConversationID inp" and ?t = "in_Content inp"
  let ?c1 = "StepCall wid 1 (GetMessagesStep ?c)"
  let ?c2 = "StepCall wid 2 (SaveMessageStep ?c ''user'' ?t)"
  let ?goal = "\<exists>m msgs ai.
            1 \<le> m \<and> m \<le> 4 \<and>
            step_calls (events s')
              = step_calls (events s) @
                take m [?c1, ?c2, StepCall wid 3 (ChatStep msgs ?t),
                        StepCall wid 4 (SaveMessageStep ?c ''assistant'' ai)] \<and>
            (err = None \<longrightarrow>
               m = 4 \<and>
               (\<exists>userMsg assistantMsg.
                  recorded_output s' wid 1 = Some (VMessages msgs) \<and>
                  recorded_output s' wid 2 = Some (VMessage userMsg) \<and>
                  recorded_output s' wid 3 = Some (VString ai) \<and>
                  recorded_output s' wid 4 = Some (VMessage assistantMsg) \<and>
                  out = VSendMessageOutput
                          \<lparr>UserMessage = userMsg, AssistantMessage = assistantMsg\<rparr>))"
  have N: "(2::nat) = Suc (Suc 0)" "(3::nat) = Suc (Suc (Suc 0))"
    "(4::nat) = Suc (Suc (Suc (Suc 0)))"
    by simp_all
  obtain r1 s1 where rs1: "RunStep E wid 1 (GetMessagesStep ?c) s = (r1, s1)"
    by force
  note c1 = RunStep_step_calls [OF rs1]
  show ?goal
  proof (cases "as_messages r1")
    case (Inl e1)
    with run rs1 have "err = Some e1" "s' = s1"
      by (simp_all add: SendMessageWorkflow_def N)
    with c1 show ?thesis
      by (intro exI [of _ 1]) simp
  next
    case (Inr msgs)
    then have r1: "r1 = Inr (VMessages msgs)"
      by (rule as_messages_Inr)
    obtain r2 s2 where rs2: "RunStep E wid 2 (SaveMessageStep ?c ''user'' ?t) s1 = (r2, s2)"
      by force
    note c2 = RunStep_step_calls [OF rs2]
    show ?thesis
    proof (cases "as_message r2")
      case (Inl e2)
      with run rs1 rs2 Inr have "err = Some e2" "s' = s2"
        by (simp_all add: SendMessageWorkflow_def N)
      with c1 c2 show ?thesis
        by (intro exI [of _ 2]) simp
    next
      case (Inr userMsg)
      then have r2: "r2 = Inr (VMessage userMsg)"
        by (rule as_message_Inr)
      obtain r3 s3 where rs3: "RunStep E wid 3 (ChatStep msgs ?t) s2 = (r3, s3)"
        by force
      note c3 = RunStep_step_calls [OF rs3]
      show ?thesis
      proof (cases "as_string r3")
        case (Inl e3)
        with run rs1 rs2 rs3 \<open>as_messages r1 = Inr msgs\<close> \<open>as_message r2 = Inr userMsg\<close>
        have "err = Some e3" "s' = s3"
          by (simp_all add: SendMessageWorkflow_def N)
        with c1 c2 c3 show ?thesis
          by (intro exI [of _ 3] exI [of _ msgs]) simp
      next
        case (Inr ai)
        then have r3: "r3 = Inr (VString ai)"
          by (rule as_string_Inr)
        obtain r4 s4 where rs4: "RunStep E wid 4 (SaveMessageStep ?c ''assistant'' ai) s3 = (r4, s4)"
          by force
        note c4 = RunStep_step_calls [OF rs4]
        from c1 c2 c3 c4 have calls4: "step_calls (events s4)
              = step_calls (events s) @
                take 4 [?c1, ?c2, StepCall wid 3 (ChatStep msgs ?t),
                        StepCall wid 4 (SaveMessageStep ?c ''assistant'' ai)]"
          by simp
        show ?thesis
        proof (cases "as_message r4")
          case (Inl e4)
          with run rs1 rs2 rs3 rs4 \<open>as_messages r1 = Inr msgs\<close> \<open>as_message r2 = Inr userMsg\<close>
            \<open>as_string r3 = Inr ai\<close>
          have "err = Some e4" "s' = s4"
            by (simp_all add: SendMessageWorkflow_def N)
          with calls4 show ?thesis
            by (intro exI [of _ 4] exI [of _ msgs] exI [of _ ai]) simp
        next
          case (Inr assistantMsg)
          then have r4: "r4 = Inr (VMessage assistantMsg)"
            by (rule as_message_Inr)
          from run rs1 rs2 rs3 rs4 \<open>as_messages r1 = Inr msgs\<close> \<open>as_message r2 = Inr userMsg\<close>
            \<open>as_string r3 = Inr ai\<close> Inr
          have fin: "err = None" "s' = s4"
            "out = VSendMessageOutput \<lparr>UserMessage = userMsg, AssistantMessage = assistantMsg\<rparr>"
            by (simp_all add: SendMessageWorkflow_def N)
          have rec4: "recorded_output s4 wid 4 = Some (VMessage assistantMsg)"
            using rs4 r4 by (auto intro: RunStep_records_success)
          have rec3: "recorded_output s4 wid 3 = Some (VString ai)"
            using RunStep_other_position [OF rs4, of 3] RunStep_records_success [of E wid 3 _ s2 "VString ai" s3]
              rs3 r3 by simp
          have rec2': "recorded_output s2 wid 2 = Some (VMessage userMsg)"
            using rs2 r2 by (auto intro: RunStep_records_success)
          have rec2: "recorded_output s4 wid 2 = Some (VMessage userMsg)"
            using RunStep_other_position [OF rs4, of 2] RunStep_other_position [OF rs3, of 2] rec2'
            by simp
          have rec1': "recorded_output s1 wid 1 = Some (VMessages msgs)"
            using rs1 r1 by (auto intro: RunStep_records_success)
          have rec1: "recorded_output s4 wid 1 = Some (VMessages msgs)"
            using RunStep_other_position [OF rs4, of 1] RunStep_other_position [OF rs3, of 1]
              RunStep_other_position [OF rs2, of 1] rec1'
            by simp
          from calls4 fin rec1 rec2 rec3 rec4 show ?thesis
            by (intro exI [of _ 4] exI [of _ msgs] exI [of _ ai]) simp
        qed
      qed
    qed
  qed
next
  show "\<forall>w v w'. run_body e (GetMessagesStep c) w = (Inr v, w') \<longrightarrow>
            (\<exists>ms. v = VMessages ms \<and> messages w' = messages w \<and>
                  elems ms = sort_key CreatedAt
                               (filter (\<lambda>m. ConversationID m = c) (messages w)))"
    by (auto simp: run_body_def split: prod.splits sum.splits dest: getMessages_history)
next
  show "\<forall>role t w v w'. run_body e (SaveMessageStep c role t) w = (Inr v, w') \<longrightarrow>
            (\<exists>m. v = VMessage m \<and> messages w' = messages w @ [m] \<and>
                 ConversationID m = c \<and> Role m = role \<and> Content m = t)"
    by (auto simp: run_body_def split: prod.splits sum.splits dest: saveMessage_appends)
next
  show "\<forall>ms t w v w'. run_body e (ChatStep ms t) w = (Inr v, w') \<longrightarrow>
            (\<exists>reply. v = VString reply \<and> messages w' = messages w \<and>
                 calls w' = calls w @
                   [ChatCompletion
                      \<lparr>Model = ''meta-llama/Meta-Llama-3.1-8B-Instruct'',
                       Messages = map (\<lambda>m. \<lparr>vm_Role = Role m, vm_Content = Content m\<rparr>) (elems ms)
                                  @ [\<lparr>vm_Role = ''user'', vm_Content = t\<rparr>],
                       MaxTokens = 4096\<rparr>])"
    by (auto simp: run_body_def split: prod.splits sum.splits dest: Chat_request)
qed

theorem SendMessageWorkflow_four_steps_witness:
  "run_workflow (SendMessageWorkflow input0) (dbosCtx env0 pol0) 101 1 state0
     = ((VSendMessageOutput \<lparr>UserMessage = user101, AssistantMessage = assistant105\<rparr>, None),
        snd (run_workflow (SendMessageWorkflow input0) (dbosCtx env0 pol0) 101 1 state0)) \<and>
   recorded_output (snd (run_workflow (SendMessageWorkflow input0) (dbosCtx env0 pol0) 101 1 state0))
     101 2 = Some (VMessage user101) \<and>
   recorded_output (snd (run_workflow (SendMessageWorkflow input0) (dbosCtx env0 pol0) 101 1 state0))
     101 4 = Some (VMessage assistant105) \<and>
   step_calls (events (snd (run_workflow (SendMessageWorkflow input0) (dbosCtx env0 pol0) 101 1 state0)))
     = [StepCall 101 1 (GetMessagesStep 1), StepCall 101 2 (SaveMessageStep 1 ''user'' ''hi''),
        StepCall 101 3 (ChatStep NilSlice ''hi''),
        StepCall 101 4 (SaveMessageStep 1 ''assistant'' ''hello'')] \<and>
   messages (app (snd (run_workflow (SendMessageWorkflow input0) (dbosCtx env0 pol0) 101 1 state0)))
     = [user101, assistant105] \<and>
   calls (app (snd (run_workflow (SendMessageWorkflow input0) (dbosCtx env0 pol0) 101 1 state0)))
     = [SelectMessages 1, InsertMessage user101,
        ChatCompletion \<lparr>Model = ''meta-llama/Meta-Llama-3.1-8B-Instruct'',
                        Messages = [\<lparr>vm_Role = ''user'', vm_Content = ''hi''\<rparr>],
                        MaxTokens = 4096\<rparr>,
        InsertMessage assistant105]"
proof -
  let ?run = "run_workflow (SendMessageWorkflow input0) (dbosCtx env0 pol0) 101 1 state0"
  have r: "?run = ((VSendMessageOutput \<lparr>UserMessage = user101, AssistantMessage = assistant105\<rparr>,
                    None), snd ?run)"
    by code_simp
  have c: "step_calls (events (snd ?run))
     = [StepCall 101 1 (GetMessagesStep 1), StepCall 101 2 (SaveMessageStep 1 ''user'' ''hi''),
        StepCall 101 3 (ChatStep NilSlice ''hi''),
        StepCall 101 4 (SaveMessageStep 1 ''assistant'' ''hello'')]"
    by code_simp
  have m: "messages (app (snd ?run)) = [user101, assistant105]"
    by code_simp
  have l: "calls (app (snd ?run))
     = [SelectMessages 1, InsertMessage user101,
        ChatCompletion \<lparr>Model = ''meta-llama/Meta-Llama-3.1-8B-Instruct'',
                        Messages = [\<lparr>vm_Role = ''user'', vm_Content = ''hi''\<rparr>],
                        MaxTokens = 4096\<rparr>,
        InsertMessage assistant105]"
    by code_simp
  from SendMessageWorkflow_four_steps [OF r]
  have "\<exists>userMsg assistantMsg.
          recorded_output (snd ?run) 101 2 = Some (VMessage userMsg) \<and>
          recorded_output (snd ?run) 101 4 = Some (VMessage assistantMsg) \<and>
          VSendMessageOutput \<lparr>UserMessage = user101, AssistantMessage = assistant105\<rparr>
            = VSendMessageOutput \<lparr>UserMessage = userMsg, AssistantMessage = assistantMsg\<rparr>"
    by blast
  then have "recorded_output (snd ?run) 101 2 = Some (VMessage user101) \<and>
             recorded_output (snd ?run) 101 4 = Some (VMessage assistant105)"
    by auto
  with r c m l show ?thesis
    by blast
qed

section \<open>The SendMessage handler: all or nothing\<close>

lemma Start_handle:
  assumes "map_of (registry E) name \<noteq> None"
  shows "fst (Start E name inp wid s) = Inr wid"
proof -
  from assms obtain f where reg: "map_of (registry E) name = Some f"
    by auto
  show ?thesis
  proof (cases "map_of (executions s) wid")
    case (Some row)
    with reg show ?thesis by (simp add: Start_existing)
  next
    case None
    let ?s0 = "s\<lparr>executions := executions s @
                      [(wid, \<lparr>workflow_name = name, exec_input = inp, status = PENDING,
                              exec_output = None, error_detail = None\<rparr>)]\<rparr>"
    have row0: "map_of (executions ?s0) wid
                  = Some \<lparr>workflow_name = name, exec_input = inp, status = PENDING,
                          exec_output = None, error_detail = None\<rparr>"
      using None by (simp add: map_add_Some_iff)
    have "fst (execute E wid ?s0) = None"
      using reg row0 by (rule execute_registered) simp
    then show ?thesis
      using reg None
      by (auto simp: Start_def create_if_absent_def split: prod.splits option.splits)
  qed
qed

lemma chat_registry_known:
  "map_of (registry (dbosCtx e pol)) ''SendMessageWorkflow'' \<noteq> None"
  "map_of (registry (dbosCtx e pol)) ''DeleteConversationWorkflow'' \<noteq> None"
  by (simp_all add: dbosCtx_def chat_registry_def)

text \<open>
  Claim C5. When a request passes the checks of the handler and the execution it
  started (under the id drawn right after the existence query) ends in error, the
  response is 500 with a body that holds nothing but an error string, whatever steps
  succeeded before. More generally every response of
  \<open>SendMessage\<close> is either an error object with a code other than 200, or 200 with both
  messages of the output of a successful execution: part of an output is never sent.
\<close>

theorem SendMessage_all_or_nothing:
  "(uuid_Parse e (param_id r) = Some cid \<and> ShouldBindJSON r = Inr req \<and>
    fst (query_exists e cid (app s)) = Inr True \<and>
    GetResult (uuid_source e (Suc (tick (app s)))) (snd (SendMessage e pol r s)) = Some (Inl err) \<longrightarrow>
      fst (SendMessage e pol r s)
        = Some \<lparr>code = 500,
                body = gin_H ''error'' (''Failed to get AI response: '' @ Error err)\<rparr>) \<and>
   (\<forall>resp. fst (SendMessage e pol r s) = Some resp \<longrightarrow>
      (code resp \<noteq> 200 \<and> (\<exists>msg. body resp = gin_H ''error'' msg)) \<or>
      (code resp = 200 \<and>
       (\<exists>out. body resp = ChatResponse_json
                             \<lparr>resp_UserMessage = UserMessage out,
                              resp_AssistantMessage = AssistantMessage out\<rparr> \<and>
              GetResult (uuid_source e (Suc (tick (app s)))) (snd (SendMessage e pol r s))
                = Some (Inr (VSendMessageOutput out)))))"
proof (intro conjI impI allI)
  fix resp
  assume resp: "fst (SendMessage e pol r s) = Some resp"
  let ?concl = "(code resp \<noteq> 200 \<and> (\<exists>msg. body resp = gin_H ''error'' msg)) \<or>
      (code resp = 200 \<and>
       (\<exists>out. body resp = ChatResponse_json
                             \<lparr>resp_UserMessage = UserMessage out,
                              resp_AssistantMessage = AssistantMessage out\<rparr> \<and>
              GetResult (uuid_source e (Suc (tick (app s)))) (snd (SendMessage e pol r s))
                = Some (Inr (VSendMessageOutput out))))"
  show ?concl
  proof (cases "uuid_Parse e (param_id r)")
    case None
    with resp show ?thesis by (auto simp: SendMessage_def)
  next
    case (Some cid)
    show ?thesis
    proof (cases "ShouldBindJSON r")
      case (Inl x)
      with Some resp show ?thesis by (auto simp: SendMessage_def)
    next
      case (Inr req)
      let ?a = "advance (ExistsConversation cid) (app s)"
      have sa: "snd (query_exists e cid (app s)) = ?a"
        by (simp add: query_exists_def split: option.splits)
      show ?thesis
      proof (cases "fst (query_exists e cid (app s)) = Inr True")
        case False
        with Some Inr resp show ?thesis
          by (auto simp: SendMessage_def split: prod.splits)
      next
        case True
        let ?wid = "uuid_source e (Suc (tick (app s)))"
        let ?inp = "VSendMessageInput \<lparr>in_ConversationID = cid, in_Content = req_Content req\<rparr>"
        let ?s2 = "s\<lparr>app := ?a\<lparr>tick := Suc (tick ?a)\<rparr>\<rparr>"
        have qe: "query_exists e cid (app s) = (Inr True, ?a)"
          using True sa by (metis prod.collapse)
        obtain s3 where st: "Start (dbosCtx e pol) ''SendMessageWorkflow'' ?inp ?wid ?s2 = (Inr ?wid, s3)"
          using Start_handle [OF chat_registry_known(1), of e pol ?inp ?wid ?s2]
          by (metis prod.collapse)
        have rw: "RunWorkflow e (dbosCtx e pol) ''SendMessageWorkflow'' ?inp (s\<lparr>app := ?a\<rparr>)
                    = (Inr ?wid, s3)"
          using st by (simp add: RunWorkflow_def uuid_New_def advance_def)
        from Some Inr qe rw resp show ?thesis
          by (auto simp: SendMessage_def split: option.splits sum.splits val.splits)
      qed
    qed
  qed
next
  assume a: "uuid_Parse e (param_id r) = Some cid \<and> ShouldBindJSON r = Inr req \<and>
    fst (query_exists e cid (app s)) = Inr True \<and>
    GetResult (uuid_source e (Suc (tick (app s)))) (snd (SendMessage e pol r s)) = Some (Inl err)"
  let ?a = "advance (ExistsConversation cid) (app s)"
  let ?wid = "uuid_source e (Suc (tick (app s)))"
  let ?inp = "VSendMessageInput \<lparr>in_ConversationID = cid, in_Content = req_Content req\<rparr>"
  let ?s2 = "s\<lparr>app := ?a\<lparr>tick := Suc (tick ?a)\<rparr>\<rparr>"
  have qe: "query_exists e cid (app s) = (Inr True, ?a)"
    using a by (auto simp: query_exists_def split: option.splits)
  obtain s3 where st: "Start (dbosCtx e pol) ''SendMessageWorkflow'' ?inp ?wid ?s2 = (Inr ?wid, s3)"
    using Start_handle [OF chat_registry_known(1), of e pol ?inp ?wid ?s2]
    by (metis prod.collapse)
  have rw: "RunWorkflow e (dbosCtx e pol) ''SendMessageWorkflow'' ?inp (s\<lparr>app := ?a\<rparr>) = (Inr ?wid, s3)"
    using st by (simp add: RunWorkflow_def uuid_New_def advance_def)
  have sm: "SendMessage e pol r s =
      (case GetResult ?wid s3 of
         None \<Rightarrow> (None, s3)
       | Some (Inl err) \<Rightarrow>
           (Some \<lparr>code = 500,
                  body = gin_H ''error'' (''Failed to get AI response: '' @ Error err)\<rparr>, s3)
       | Some (Inr v) \<Rightarrow>
           (case v of
              VSendMessageOutput out \<Rightarrow>
                (Some \<lparr>code = 200,
                       body = ChatResponse_json
                                \<lparr>resp_UserMessage = UserMessage out,
                                 resp_AssistantMessage = AssistantMessage out\<rparr>\<rparr>, s3)
            | _ \<Rightarrow>
                (Some \<lparr>code = 500,
                       body = gin_H ''error''
                                (''Failed to get AI response: ''
                                 @ ''cannot decode workflow output'')\<rparr>, s3)))"
    using a qe rw by (simp add: SendMessage_def)
  have "snd (SendMessage e pol r s) = s3"
    unfolding sm by (simp split: option.splits sum.splits val.splits)
  with a have "GetResult ?wid s3 = Some (Inl err)"
    by simp
  then show "fst (SendMessage e pol r s)
        = Some \<lparr>code = 500,
                body = gin_H ''error'' (''Failed to get AI response: '' @ Error err)\<rparr>"
    unfolding sm by simp
qed

theorem SendMessage_all_or_nothing_witness:
  "uuid_Parse env_down (param_id request0) = Some 1 \<and>
   ShouldBindJSON request0 = Inr \<lparr>req_Content = ''hi''\<rparr> \<and>
   fst (query_exists env_down 1 (app state0)) = Inr True \<and>
   GetResult (uuid_source env_down (Suc (tick (app state0))))
       (snd (SendMessage env_down pol0 request0 state0))
     = Some (Inl (GoError ''failed to send request to vLLM: connection refused'')) \<and>
   fst (SendMessage env_down pol0 request0 state0)
     = Some \<lparr>code = 500,
             body = gin_H ''error''
                      ''Failed to get AI response: failed to send request to vLLM: connection refused''\<rparr> \<and>
   messages (app (snd (SendMessage env_down pol0 request0 state0))) = [user103] \<and>
   recorded_output (snd (SendMessage env_down pol0 request0 state0)) 101 2
     = Some (VMessage user103)"
proof -
  have p: "uuid_Parse env_down (param_id request0) = Some 1"
    by (simp add: env_down_def env0_def request0_def)
  have b: "ShouldBindJSON request0 = Inr \<lparr>req_Content = ''hi''\<rparr>"
    by (simp add: ShouldBindJSON_def request0_def)
  have f: "fst (query_exists env_down 1 (app state0)) = Inr True"
    by code_simp
  have g: "GetResult (uuid_source env_down (Suc (tick (app state0))))
             (snd (SendMessage env_down pol0 request0 state0))
           = Some (Inl (GoError ''failed to send request to vLLM: connection refused''))"
    by code_simp
  have m: "messages (app (snd (SendMessage env_down pol0 request0 state0))) = [user103]"
    by code_simp
  have u: "recorded_output (snd (SendMessage env_down pol0 request0 state0)) 101 2
             = Some (VMessage user103)"
    by code_simp
  from SendMessage_all_or_nothing [of env_down request0 1 "\<lparr>req_Content = ''hi''\<rparr>" state0 pol0
         "GoError ''failed to send request to vLLM: connection refused''"] p b f g
  have "fst (SendMessage env_down pol0 request0 state0)
     = Some \<lparr>code = 500,
             body = gin_H ''error''
                      (''Failed to get AI response: ''
                       @ Error (GoError ''failed to send request to vLLM: connection refused''))\<rparr>"
    by blast
  with p b f g m u show ?thesis
    by simp
qed

section \<open>Deleting a conversation\<close>

lemma RunStep_first_success:
  assumes "recorded_output s wid n = None" and "body_runner E b (app s) = (Inr v, a)"
  shows "RunStep E wid n b s
           = (Inr v, upsert_step wid n
                       \<lparr>step_status = STEP_SUCCESS, step_output = Some v,
                        step_error = None, attempt_count = 1\<rparr>
                       ((log_event (BodyAttempt wid n 1) (log_event (StepCall wid n b) s))\<lparr>app := a\<rparr>))"
proof -
  let ?s0 = "log_event (StepCall wid n b) s"
  have "body_runner E b (app ?s0) = (Inr v, a)"
    using assms(2) by (simp add: log_event_def)
  then have "run_attempts E wid n b 1 ?s0 = (Inr v, 1, (log_event (BodyAttempt wid n 1) ?s0)\<lparr>app := a\<rparr>)"
    by (subst run_attempts.simps) simp
  with assms(1) show ?thesis
    by (simp add: RunStep_def Let_def)
qed

lemma recorded_output_upsert_other:
  "m \<noteq> n \<Longrightarrow> recorded_output (upsert_step wid n rec s) wid m = recorded_output s wid m"
  by (simp add: recorded_output_def upsert_step_def map_of_upsert)

lemma recorded_output_app [simp]:
  "recorded_output (s\<lparr>app := a\<rparr>) wid n = recorded_output s wid n"
  by (simp add: recorded_output_def)

lemma DeleteConversationWorkflow_run:
  assumes healthy: "\<forall>t. db_error e t = None"
      and unrec: "\<forall>n. recorded_output s wid n = None"
  shows "\<exists>s'. run_workflow (DeleteConversationWorkflow cid) (dbosCtx e pol) wid 1 s
                 = ((VBool True, None), s') \<and>
              messages (app s') = filter (\<lambda>m. ConversationID m \<noteq> cid) (messages (app s)) \<and>
              conversations (app s') = filter (\<lambda>c. conv_ID c \<noteq> cid) (conversations (app s)) \<and>
              calls (app s') = calls (app s) @ [DeleteMessages cid, DeleteConversationRow cid]"
proof -
  let ?E = "dbosCtx e pol"
  let ?a1 = "(advance (DeleteMessages cid) (app s))
               \<lparr>messages := filter (\<lambda>m. ConversationID m \<noteq> cid) (messages (app s))\<rparr>"
  have b1: "body_runner ?E (DeleteMessagesStep cid) (app s) = (Inr (VBool True), ?a1)"
    using healthy by (simp add: dbosCtx_def run_body_def delete_messages_def)
  let ?s1 = "upsert_step wid 1
               \<lparr>step_status = STEP_SUCCESS, step_output = Some (VBool True),
                step_error = None, attempt_count = 1\<rparr>
               ((log_event (BodyAttempt wid 1 1) (log_event (StepCall wid 1 (DeleteMessagesStep cid)) s))
                  \<lparr>app := ?a1\<rparr>)"
  have r1: "RunStep ?E wid 1 (DeleteMessagesStep cid) s = (Inr (VBool True), ?s1)"
    using unrec b1 by (intro RunStep_first_success) auto
  have app1: "app ?s1 = ?a1"
    by (simp add: upsert_step_def log_event_def)
  have u2: "recorded_output ?s1 wid 2 = None"
    using unrec by (simp add: recorded_output_upsert_other)
  have nomsg: "cid \<notin> set (map ConversationID (messages ?a1))"
    by (auto simp: advance_def)
  let ?a2 = "(advance (DeleteConversationRow cid) ?a1)
               \<lparr>conversations := filter (\<lambda>c. conv_ID c \<noteq> cid) (conversations ?a1)\<rparr>"
  have b2: "body_runner ?E (DeleteConversationStep cid) (app ?s1) = (Inr (VBool True), ?a2)"
    unfolding app1 using healthy nomsg
    by (simp add: dbosCtx_def run_body_def delete_conversation_def)
  let ?s2 = "upsert_step wid 2
               \<lparr>step_status = STEP_SUCCESS, step_output = Some (VBool True),
                step_error = None, attempt_count = 1\<rparr>
               ((log_event (BodyAttempt wid 2 1) (log_event (StepCall wid 2 (DeleteConversationStep cid)) ?s1))
                  \<lparr>app := ?a2\<rparr>)"
  have r2: "RunStep ?E wid 2 (DeleteConversationStep cid) ?s1 = (Inr (VBool True), ?s2)"
    using u2 b2 by (rule RunStep_first_success)
  have two: "Suc (Suc 0) = 2"
    by simp
  have "run_workflow (DeleteConversationWorkflow cid) ?E wid 1 s = ((VBool True, None), ?s2)"
    using r1 r2 by (simp add: DeleteConversationWorkflow_def two del: One_nat_def)
  moreover have "app ?s2 = ?a2"
    by (simp add: upsert_step_def log_event_def)
  ultimately show ?thesis
    by (intro exI [of _ ?s2]) (simp add: advance_def)
qed


lemma recorded_output_executions [simp]:
  "recorded_output (s\<lparr>executions := x\<rparr>) wid n = recorded_output s wid n"
  by (simp add: recorded_output_def)

lemma Start_fresh_success:
  assumes reg: "map_of (registry E) name = Some f"
      and fresh: "map_of (executions s) wid = None"
      and run: "run_workflow (f inp) E wid 1
                  (log_event (FunctionInvoked wid)
                     (set_running wid
                        (s\<lparr>executions := executions s @
                              [(wid, \<lparr>workflow_name = name, exec_input = inp, status = PENDING,
                                      exec_output = None, error_detail = None\<rparr>)]\<rparr>)))
                = ((v, None), s1)"
  shows "Start E name inp wid s = (Inr wid, finalize wid (v, None) s1) \<and>
         GetResult wid (finalize wid (v, None) s1) = Some (Inr v) \<and>
         app (finalize wid (v, None) s1) = app s1"
proof -
  let ?row = "\<lparr>workflow_name = name, exec_input = inp, status = PENDING,
               exec_output = None, error_detail = None\<rparr>"
  let ?s0 = "s\<lparr>executions := executions s @ [(wid, ?row)]\<rparr>"
  have row0: "map_of (executions ?s0) wid = Some ?row"
    using fresh by (simp add: map_add_Some_iff)
  have ex: "execute E wid ?s0 = (None, finalize wid (v, None) s1)"
    using row0 reg run by (simp add: execute_def terminal_def)
  have st: "Start E name inp wid s = (Inr wid, finalize wid (v, None) s1)"
    using reg fresh ex by (simp add: Start_def create_if_absent_def)
  from run_workflow_frame [OF run, of wid]
  have "executions s1 = executions (set_running wid ?s0)"
    by (simp add: log_event_def)
  then have "map_of (executions s1) wid = Some (?row\<lparr>status := RUNNING\<rparr>)"
    using row0 by (simp add: set_running_def map_of_update_execution)
  then have "GetResult wid (finalize wid (v, None) s1) = Some (Inr v)"
    by (simp add: finalize_def map_of_update_execution GetResult_def)
  with st show ?thesis
    by (simp add: finalize_def)
qed

text \<open>
  Claim C10. For a path parameter that parses, when the database does not fail and the
  generated execution id is new (no row and no step record under it),
  \<open>DeleteConversation\<close> runs the two steps in order
  (delete the messages of the conversation, then the conversation row), leaves the
  tables without any row of that id, and answers 200 with \<open>Conversation deleted\<close>,
  whether or not a row matched. No response of the handler has code 404.
\<close>

theorem DeleteConversation_idempotent:
  "(uuid_Parse e (param_id r) = Some cid \<and> (\<forall>t. db_error e t = None) \<and>
    map_of (executions s) (uuid_source e (tick (app s))) = None \<and>
    (\<forall>n. recorded_output s (uuid_source e (tick (app s))) n = None) \<longrightarrow>
      fst (DeleteConversation e pol r s)
        = Some \<lparr>code = 200, body = gin_H ''message'' ''Conversation deleted''\<rparr> \<and>
      messages (app (snd (DeleteConversation e pol r s)))
        = filter (\<lambda>m. ConversationID m \<noteq> cid) (messages (app s)) \<and>
      conversations (app (snd (DeleteConversation e pol r s)))
        = filter (\<lambda>c. conv_ID c \<noteq> cid) (conversations (app s)) \<and>
      calls (app (snd (DeleteConversation e pol r s)))
        = calls (app s) @ [DeleteMessages cid, DeleteConversationRow cid]) \<and>
   (\<forall>resp. fst (DeleteConversation e pol r s) = Some resp \<longrightarrow> code resp \<noteq> 404)"
proof (intro conjI impI allI)
  fix resp
  assume "fst (DeleteConversation e pol r s) = Some resp"
  then show "code resp \<noteq> 404"
    by (auto simp: DeleteConversation_def split: option.splits prod.splits sum.splits)
next
  assume a: "uuid_Parse e (param_id r) = Some cid \<and> (\<forall>t. db_error e t = None) \<and>
    map_of (executions s) (uuid_source e (tick (app s))) = None \<and>
    (\<forall>n. recorded_output s (uuid_source e (tick (app s))) n = None)"
  let ?E = "dbosCtx e pol"
  let ?wid = "uuid_source e (tick (app s))"
  let ?s2 = "s\<lparr>app := (app s)\<lparr>tick := Suc (tick (app s))\<rparr>\<rparr>"
  let ?row = "\<lparr>workflow_name = ''DeleteConversationWorkflow'', exec_input = VUUID cid,
               status = PENDING, exec_output = None, error_detail = None\<rparr>"
  let ?sr = "log_event (FunctionInvoked ?wid)
               (set_running ?wid (?s2\<lparr>executions := executions ?s2 @ [(?wid, ?row)]\<rparr>))"
  let ?f = "\<lambda>v. case v of VUUID c \<Rightarrow> DeleteConversationWorkflow c
                  | _ \<Rightarrow> Return (v, Some (GoError ''cannot decode workflow input''))"
  have reg: "map_of (registry ?E) ''DeleteConversationWorkflow'' = Some ?f"
    by (simp add: dbosCtx_def chat_registry_def)
  have unrec: "\<forall>n. recorded_output ?sr ?wid n = None"
    using a by (simp add: set_running_def)
  from a have healthy: "\<forall>t. db_error e t = None"
    by simp
  from DeleteConversationWorkflow_run [OF healthy unrec, of cid pol]
  obtain s1 where run: "run_workflow (DeleteConversationWorkflow cid) ?E ?wid 1 ?sr
                          = ((VBool True, None), s1)"
    and eff: "messages (app s1) = filter (\<lambda>m. ConversationID m \<noteq> cid) (messages (app ?sr))"
      "conversations (app s1) = filter (\<lambda>c. conv_ID c \<noteq> cid) (conversations (app ?sr))"
      "calls (app s1) = calls (app ?sr) @ [DeleteMessages cid, DeleteConversationRow cid]"
    by blast
  have fresh: "map_of (executions ?s2) ?wid = None"
    using a by simp
  have run': "run_workflow (?f (VUUID cid)) ?E ?wid 1 ?sr = ((VBool True, None), s1)"
    using run by simp
  from Start_fresh_success [OF reg fresh run']
  have st: "Start ?E ''DeleteConversationWorkflow'' (VUUID cid) ?wid ?s2
              = (Inr ?wid, finalize ?wid (VBool True, None) s1)"
    and gr: "GetResult ?wid (finalize ?wid (VBool True, None) s1) = Some (Inr (VBool True))"
    and ap: "app (finalize ?wid (VBool True, None) s1) = app s1"
    by auto
  have dc: "DeleteConversation e pol r s
              = (Some \<lparr>code = 200, body = gin_H ''message'' ''Conversation deleted''\<rparr>,
                 finalize ?wid (VBool True, None) s1)"
    using a st gr by (simp add: DeleteConversation_def RunWorkflow_def uuid_New_def)
  have apr: "messages (app ?sr) = messages (app s)" "conversations (app ?sr) = conversations (app s)"
    "calls (app ?sr) = calls (app s)"
    by (simp_all add: log_event_def set_running_def)
  from dc ap eff apr
  show "fst (DeleteConversation e pol r s)
        = Some \<lparr>code = 200, body = gin_H ''message'' ''Conversation deleted''\<rparr>"
    "messages (app (snd (DeleteConversation e pol r s)))
        = filter (\<lambda>m. ConversationID m \<noteq> cid) (messages (app s))"
    "conversations (app (snd (DeleteConversation e pol r s)))
        = filter (\<lambda>c. conv_ID c \<noteq> cid) (conversations (app s))"
    "calls (app (snd (DeleteConversation e pol r s)))
        = calls (app s) @ [DeleteMessages cid, DeleteConversationRow cid]"
    by simp_all
qed

theorem DeleteConversation_idempotent_witness:
  "uuid_Parse env2 (param_id request_missing) = Some 2 \<and>
   2 \<notin> set (map conv_ID (conversations (app state0))) \<and>
   DeleteConversation env2 pol0 request_missing state0
     = (Some \<lparr>code = 200, body = gin_H ''message'' ''Conversation deleted''\<rparr>,
        snd (DeleteConversation env2 pol0 request_missing state0)) \<and>
   conversations (app (snd (DeleteConversation env2 pol0 request_missing state0)))
     = conversations (app state0) \<and>
   fst (DeleteConversation env2 pol0 request_missing
          (snd (DeleteConversation env2 pol0 request_missing state0)))
     = Some \<lparr>code = 200, body = gin_H ''message'' ''Conversation deleted''\<rparr>"
proof -
  let ?s1 = "snd (DeleteConversation env2 pol0 request_missing state0)"
  have p: "uuid_Parse env2 (param_id request_missing) = Some 2"
    by (simp add: env2_def env0_def request_missing_def)
  have h: "\<forall>t. db_error env2 t = None"
    by (simp add: env2_def env0_def)
  have n: "2 \<notin> set (map conv_ID (conversations (app state0)))"
    by (simp add: state0_def world0_def)
  have f0: "map_of (executions state0) (uuid_source env2 (tick (app state0))) = None"
    "\<forall>n. recorded_output state0 (uuid_source env2 (tick (app state0))) n = None"
    by (simp_all add: state0_def recorded_output_def)
  from DeleteConversation_idempotent [of env2 request_missing 2 state0 pol0] p h f0
  have r1: "fst (DeleteConversation env2 pol0 request_missing state0)
        = Some \<lparr>code = 200, body = gin_H ''message'' ''Conversation deleted''\<rparr>"
    and c1: "conversations (app ?s1) = filter (\<lambda>c. conv_ID c \<noteq> 2) (conversations (app state0))"
    by blast+
  have c2: "conversations (app ?s1) = conversations (app state0)"
    using c1 by (simp add: state0_def world0_def)
  have r2: "fst (DeleteConversation env2 pol0 request_missing ?s1)
     = Some \<lparr>code = 200, body = gin_H ''message'' ''Conversation deleted''\<rparr>"
    by code_simp
  from p n r1 c2 r2 show ?thesis
    by (metis prod.collapse)
qed

end
